theory Spec2Isabelle
  imports
    Main
    "HOL-Library.Multiset"
    "HOL-Library.Char_ord"
    "HOL-Library.List_Lexorder"
    "HOL-Library.Product_Lexorder"
    "HOL-Library.Option_ord"
begin

section \<open>Project status describer (pkg/cmd/cli/describe/projectstatus.go)\<close>

text \<open>
  A shallow embedding of the parts of \<^verbatim>\<open>projectstatus.go\<close> that the status report's
  contract rests on.  Go strings are byte strings (\<^typ>\<open>string\<close>), compared bytewise and
  lexicographically; Go's \<^verbatim>\<open>int\<close> values are modelled as \<^typ>\<open>int\<close> (no arithmetic
  is performed on them here, they are only compared and printed).
\<close>

subsection \<open>Build timestamps\<close>

text \<open>
  \<^verbatim>\<open>unversioned.Time\<close> wraps \<^verbatim>\<open>time.Time\<close>; only the instant matters here, counted
  from Go's zero time, so that \<^verbatim>\<open>IsZero\<close> is equality with 0.  A \<^verbatim>\<open>*unversioned.Time\<close>
  is an optional instant; \<^verbatim>\<open>IsZero\<close> on a nil pointer answers true.
\<close>

type_synonym Time = int

definition Time_zero :: Time where
  "Time_zero = 0"

definition IsZero :: "Time \<Rightarrow> bool" where
  "IsZero t = (t = Time_zero)"

definition ptr_IsZero :: "Time option \<Rightarrow> bool" where
  "ptr_IsZero p = (case p of None \<Rightarrow> True | Some t \<Rightarrow> IsZero t)"

definition Before :: "Time \<Rightarrow> Time \<Rightarrow> bool" where
  "Before t u = (t < u)"

definition After :: "Time \<Rightarrow> Time \<Rightarrow> bool" where
  "After t u = (t > u)"

record build =
  build_Name :: string
  build_CreationTimestamp :: Time
  build_StartTimestamp :: "Time option"
  build_CompletionTimestamp :: "Time option"

text \<open>\<^verbatim>\<open>func buildTimestamp(build *buildapi.Build) unversioned.Time\<close>\<close>

definition buildTimestamp :: "build option \<Rightarrow> Time" where
  "buildTimestamp b =
     (case b of
        None \<Rightarrow> Time_zero
      | Some build \<Rightarrow>
          if \<not> ptr_IsZero (build_CompletionTimestamp build)
            then the (build_CompletionTimestamp build)
          else if \<not> ptr_IsZero (build_StartTimestamp build)
            then the (build_StartTimestamp build)
          else build_CreationTimestamp build)"

text \<open>
  \<^verbatim>\<open>describeAdditionalBuildDetail\<close>.  The phrase for one build is produced by
  \<^verbatim>\<open>describeBuildPhase\<close>, which formats a relative time against the wall clock; it is
  the parameter \<open>phase\<close> here, given the build, the optional explicit time, the parent's
  name and the push-target flag.  A build node always carries its build.  The result is
  \<open>None\<close> where the Go code dereferences a nil \<^verbatim>\<open>lastUnsuccessfulBuild\<close>.
\<close>

definition describeAdditionalBuildDetail ::
  "(build \<Rightarrow> Time option \<Rightarrow> string \<Rightarrow> bool \<Rightarrow> string) \<Rightarrow> string option \<Rightarrow>
   build option \<Rightarrow> build option \<Rightarrow> build list \<Rightarrow> bool \<Rightarrow> bool \<Rightarrow> string list option" where
  "describeAdditionalBuildDetail phase buildConfigName lastSuccessfulBuild lastUnsuccessfulBuild
       activeBuilds pushTargetResolved includeSuccess =
     (case buildConfigName of
        None \<Rightarrow> Some []
      | Some parent \<Rightarrow>
          let passTime = (case lastSuccessfulBuild of None \<Rightarrow> Time_zero
                          | Some b \<Rightarrow> buildTimestamp (Some b));
              failTime = (case lastUnsuccessfulBuild of None \<Rightarrow> Time_zero
                          | Some b \<Rightarrow> buildTimestamp (Some b));
              lastTime = (if After passTime failTime then passTime else failTime);
              out1 = (case lastSuccessfulBuild of
                        Some b \<Rightarrow>
                          if includeSuccess \<or> length activeBuilds > 0
                            then [phase b (Some passTime) parent pushTargetResolved] else []
                      | None \<Rightarrow> [])
          in
            if Before passTime failTime \<and> lastUnsuccessfulBuild = None then None
            else
              let out2 = (if Before passTime failTime
                            then out1 @ [phase (the lastUnsuccessfulBuild) (Some failTime)
                                           parent pushTargetResolved]
                            else out1);
                  out3 = (if length activeBuilds > 0
                            then
                              let activeOut =
                                    map (\<lambda>a. phase a None parent pushTargetResolved) activeBuilds
                              in if Before (buildTimestamp (Some (hd activeBuilds))) lastTime
                                   then out2 @ activeOut else activeOut @ out2
                            else out2)
              in Some (if length out3 = 0 \<and> lastSuccessfulBuild = None
                         then out3 @ [''not built yet''] else out3))"

subsection \<open>Go library functions used by the describer\<close>

text \<open>\<^verbatim>\<open>strings.HasPrefix\<close> and \<^verbatim>\<open>strings.Index\<close> for a one-byte separator (-1 when absent).\<close>

definition HasPrefix :: "string \<Rightarrow> string \<Rightarrow> bool" where
  "HasPrefix s prefix = (length s \<ge> length prefix \<and> take (length prefix) s = prefix)"

fun IndexByte :: "string \<Rightarrow> char \<Rightarrow> int" where
  "IndexByte [] c = - 1"
| "IndexByte (x # xs) c =
     (if x = c then 0 else (let i = IndexByte xs c in if i = - 1 then - 1 else i + 1))"

text \<open>
  \<^verbatim>\<open>insertionSort(data, 0, n)\<close> of Go's \<^verbatim>\<open>sort\<close> package: element \<open>i\<close> is swapped
  leftwards while \<^verbatim>\<open>Less(j, j-1)\<close> holds.  \<open>bubble\<close> is the inner loop, on the already
  sorted prefix held in reverse (its head is the element at \<open>j - 1\<close>).
\<close>

fun bubble :: "('a \<Rightarrow> 'a \<Rightarrow> bool) \<Rightarrow> 'a \<Rightarrow> 'a list \<Rightarrow> 'a list" where
  "bubble lt x [] = [x]"
| "bubble lt x (y # rs) = (if lt x y then y # bubble lt x rs else x # y # rs)"

fun insertionLoop :: "('a \<Rightarrow> 'a \<Rightarrow> bool) \<Rightarrow> 'a list \<Rightarrow> 'a list \<Rightarrow> 'a list" where
  "insertionLoop lt rs [] = rs"
| "insertionLoop lt rs (x # xs) = insertionLoop lt (bubble lt x rs) xs"

definition insertionSort :: "('a \<Rightarrow> 'a \<Rightarrow> bool) \<Rightarrow> 'a list \<Rightarrow> 'a list" where
  "insertionSort lt xs = rev (insertionLoop lt [] xs)"

text \<open>
  \<^verbatim>\<open>sort.Sort\<close> runs \<^verbatim>\<open>insertionSort\<close> alone on a short slice (fewer than 7 elements
  in every Go release); on longer slices it is a quicksort whose result, for a strict
  total order, is the same sorted permutation.
\<close>

definition sort_Sort :: "('a \<Rightarrow> 'a \<Rightarrow> bool) \<Rightarrow> 'a list \<Rightarrow> 'a list" where
  "sort_Sort lt xs = insertionSort lt xs"

text \<open>\<^verbatim>\<open>strconv.Itoa\<close> (also what \<^verbatim>\<open>%d\<close> prints) and \<^verbatim>\<open>strings.Join\<close>.\<close>

definition digitChar :: "nat \<Rightarrow> char" where
  "digitChar d = ''0123456789'' ! d"

function natDigits :: "nat \<Rightarrow> string" where
  "natDigits n = (if n < 10 then [digitChar n] else natDigits (n div 10) @ [digitChar (n mod 10)])"
  by pat_completeness auto
termination
  by (relation "measure id") auto

declare natDigits.simps [simp del]

definition Itoa :: "int \<Rightarrow> string" where
  "Itoa i = (if i < 0 then CHR ''-'' # natDigits (nat (- i)) else natDigits (nat i))"

fun Join :: "string list \<Rightarrow> string \<Rightarrow> string" where
  "Join [] sep = []"
| "Join [x] sep = x"
| "Join (x # y # xs) sep = x @ sep @ Join (y # xs) sep"

definition newline :: string where
  "newline = [CHR 0x0A]"

text \<open>
  \<^verbatim>\<open>sort.Stable\<close> runs \<^verbatim>\<open>insertionSort\<close> on blocks of 20 elements and merges the blocks
  stably; on a slice of at most 20 elements it is \<^verbatim>\<open>insertionSort\<close> alone, and on a
  longer one its result for a comparison by a key is the same stably sorted permutation.
\<close>

definition sort_Stable :: "('a \<Rightarrow> 'a \<Rightarrow> bool) \<Rightarrow> 'a list \<Rightarrow> 'a list" where
  "sort_Stable lt xs = insertionSort lt xs"

subsection \<open>Ranking of exposed routes\<close>

text \<open>
  \<^verbatim>\<open>func (e exposedRoutes) Less(i, j int) bool\<close>, on the two strings \<^verbatim>\<open>e[i]\<close> and
  \<^verbatim>\<open>e[j]\<close>.  \<open>hostLess\<close> is the tail of the function, reached with both schemes
  stripped.
\<close>

definition hostLess :: "string \<Rightarrow> string \<Rightarrow> bool" where
  "hostLess a b =
     (let lA = IndexByte a (CHR '' ''); lB = IndexByte b (CHR '' '');
          lA = (if lA = - 1 then int (length a) else lA);
          lB = (if lB = - 1 then int (length b) else lB)
      in if lA < lB then True
         else if lA > lB then False
         else a < b)"

definition exposedRoutes_Less :: "string \<Rightarrow> string \<Rightarrow> bool" where
  "exposedRoutes_Less a b =
     (let prefixA = HasPrefix a ''https://''; prefixB = HasPrefix b ''https://'' in
      if prefixA \<and> \<not> prefixB then True
      else if \<not> prefixA \<and> prefixB then False
      else if \<not> prefixA \<and> \<not> prefixB then
        (let prefixA = HasPrefix a ''http://''; prefixB = HasPrefix b ''http://'' in
         if prefixA \<and> \<not> prefixB then True
         else if \<not> prefixA \<and> prefixB then False
         else if \<not> prefixA \<and> \<not> prefixB then a < b
         else hostLess (drop 7 a) (drop 7 b))
      else hostLess (drop 8 a) (drop 8 b))"

text \<open>
  The comparison as the specification words it: scheme priority, then the length of the
  substring up to the first space, then the raw string.
\<close>

definition schemeRank :: "string \<Rightarrow> nat" where
  "schemeRank s = (if HasPrefix s ''https://'' then 0 else if HasPrefix s ''http://'' then 1 else 2)"

definition lengthToSpace :: "string \<Rightarrow> nat" where
  "lengthToSpace s = length (takeWhile (\<lambda>c. c \<noteq> CHR '' '') s)"

definition spec_routeLess :: "string \<Rightarrow> string \<Rightarrow> bool" where
  "spec_routeLess a b =
     ((schemeRank a, lengthToSpace a, a) < (schemeRank b, lengthToSpace b, b))"

text \<open>
  The key the code compares by: the length level applies only to strings that carry one
  of the two schemes.
\<close>

definition routeKey :: "string \<Rightarrow> nat \<times> nat \<times> string" where
  "routeKey s = (schemeRank s, (if schemeRank s = 2 then 0 else lengthToSpace s), s)"

subsection \<open>Markers and the summary line\<close>

text \<open>
  Modelled from the spec: the type \<^verbatim>\<open>osgraph.Marker\<close> (package \<^verbatim>\<open>pkg/api/graph\<close>) is not
  part of the sources.  A marker is "severity: Error|Warning, key, relatedNode: NodeID?,
  message, suggestion"; the suggestion is a string, empty when there is none, which is how
  \<^verbatim>\<open>Describe\<close> reads it (\<^verbatim>\<open>len(marker.Suggestion) > 0\<close>).
\<close>

datatype Severity = ErrorSeverity | WarningSeverity

record Marker =
  Marker_Node :: "int option"
  Marker_Severity :: Severity
  Marker_Key :: string
  Marker_Message :: string
  Marker_Suggestion :: string

text \<open>
  The counter \<^verbatim>\<open>errorSuggestions\<close> of \<^verbatim>\<open>Describe\<close>: incremented once for every error
  marker with \<^verbatim>\<open>len(marker.Suggestion) > 0\<close>.
\<close>

fun errorSuggestions :: "Marker list \<Rightarrow> nat" where
  "errorSuggestions [] = 0"
| "errorSuggestions (marker # ms) =
     (if length (Marker_Suggestion marker) > 0 then 1 else 0) + errorSuggestions ms"

text \<open>
  The end of \<^verbatim>\<open>Describe\<close> (from \<^verbatim>\<open>errors, warnings := "", ""\<close>): what is written to the
  report after the marker sections, given the \<^verbatim>\<open>Suggest\<close> flag, the error and warning
  markers and the three lists of groups whose emptiness the fourth case asks for.
\<close>

definition Describe_summary ::
  "bool \<Rightarrow> Marker list \<Rightarrow> Marker list \<Rightarrow> 's list \<Rightarrow> 'd list \<Rightarrow> 'i list \<Rightarrow> string" where
  "Describe_summary Suggest errorMarkers warningMarkers services standaloneDCs standaloneImages =
     (let errors = (if length errorMarkers = 1 then ''1 error''
                    else if length errorMarkers > 1
                      then Itoa (int (length errorMarkers)) @ '' errors''
                    else []);
          warnings = (if length warningMarkers = 1 then ''1 warning''
                      else if length warningMarkers > 1
                        then Itoa (int (length warningMarkers)) @ '' warnings''
                      else [])
      in if \<not> Suggest \<and> length errorMarkers > 0 \<and> length warningMarkers > 0
           then errors @ '' and '' @ warnings
                  @ '' identified, use 'oc status -v' to see details.'' @ newline
         else if \<not> Suggest \<and> length errorMarkers > 0 \<and> errorSuggestions errorMarkers > 0
           then errors @ '' identified, use 'oc status -v' to see details.'' @ newline
         else if \<not> Suggest \<and> length warningMarkers > 0
           then warnings @ '' identified, use 'oc status -v' to see details.'' @ newline
         else if length services = 0 \<and> length standaloneDCs = 0 \<and> length standaloneImages = 0
           then ''You have no services, deployment configs, or build configs.'' @ newline
                  @ ''Run 'oc new-app' to create an application.'' @ newline
         else ''View details with 'oc describe <resource>/<name>' or list everything with 'oc get all'.''
                @ newline)"

subsection \<open>Service ports\<close>

text \<open>
  \<^verbatim>\<open>intstr.IntOrString\<close> with its \<^verbatim>\<open>String()\<close> method, and the fields of
  \<^verbatim>\<open>kapi.ServicePort\<close> and \<^verbatim>\<open>kapi.ServiceSpec\<close> that the summary reads.
\<close>

datatype IntstrType = IntstrInt | IntstrString

record IntOrString =
  IntOrString_Type :: IntstrType
  IntVal :: int
  StrVal :: string

definition IntOrString_String :: "IntOrString \<Rightarrow> string" where
  "IntOrString_String v = (if IntOrString_Type v = IntstrString then StrVal v else Itoa (IntVal v))"

record ServicePort =
  ServicePort_Port :: int
  ServicePort_TargetPort :: IntOrString
  ServicePort_NodePort :: int

record ServiceSpec =
  ServiceSpec_Ports :: "ServicePort list"
  ServiceSpec_ClusterIP :: string
  ServiceSpec_Type :: string

definition ServiceTypeNodePort :: string where
  "ServiceTypeNodePort = ''NodePort''"

definition ClusterIPNone :: string where
  "ClusterIPNone = ''None''"

definition portOrNodePort :: "ServiceSpec \<Rightarrow> ServicePort \<Rightarrow> string" where
  "portOrNodePort spec port =
     (if ServiceSpec_Type spec \<noteq> ServiceTypeNodePort then Itoa (ServicePort_Port port)
      else if ServicePort_NodePort port = 0 then ''<initializing>''
      else Itoa (ServicePort_NodePort port))"

text \<open>One round of the loop over \<^verbatim>\<open>spec.Ports\<close> in the multi-port case.\<close>

definition portPair :: "ServiceSpec \<Rightarrow> ServicePort \<Rightarrow> string" where
  "portPair spec port =
     (let externalPort = portOrNodePort spec port in
      if IntOrString_String (ServicePort_TargetPort port) = ''0''
           \<or> ServiceSpec_ClusterIP spec = ClusterIPNone
        then externalPort
      else if ServicePort_Port port = IntVal (ServicePort_TargetPort port)
        then IntOrString_String (ServicePort_TargetPort port)
      else externalPort @ ''->'' @ IntOrString_String (ServicePort_TargetPort port))"

definition describeServicePorts :: "ServiceSpec \<Rightarrow> string" where
  "describeServicePorts spec =
     (case ServiceSpec_Ports spec of
        [] \<Rightarrow> '' no ports''
      | [p] \<Rightarrow>
          (let port = portOrNodePort spec p in
           if IntOrString_String (ServicePort_TargetPort p) = ''0''
                \<or> ServiceSpec_ClusterIP spec = ClusterIPNone
                \<or> port = IntOrString_String (ServicePort_TargetPort p)
             then '':'' @ port
           else '':'' @ port @ '' -> '' @ IntOrString_String (ServicePort_TargetPort p))
      | _ \<Rightarrow> '' ports '' @ Join (map (portPair spec) (ServiceSpec_Ports spec)) '', '')"

subsection \<open>Ordering of markers\<close>

text \<open>
  Modelled from the spec: \<^verbatim>\<open>osgraph.ByKey\<close> and \<^verbatim>\<open>osgraph.ByNodeID\<close> (package
  \<^verbatim>\<open>pkg/api/graph\<close>) are not part of the sources.  By the specification the marker list
  is sorted "first by marker key, then by related-node identity"; the first comparator
  compares the keys as strings, the second the related nodes' IDs, a marker without a
  related node ranking before every marker that has one.
\<close>

definition ByKey_Less :: "Marker \<Rightarrow> Marker \<Rightarrow> bool" where
  "ByKey_Less a b = (Marker_Key a < Marker_Key b)"

definition ByNodeID_Less :: "Marker \<Rightarrow> Marker \<Rightarrow> bool" where
  "ByNodeID_Less a b = (Marker_Node a < Marker_Node b)"

text \<open>
  \<^verbatim>\<open>sort.Stable(osgraph.ByKey(allMarkers))\<close> followed by
  \<^verbatim>\<open>sort.Stable(osgraph.ByNodeID(allMarkers))\<close> in \<^verbatim>\<open>Describe\<close>.
\<close>

definition Describe_sortMarkers :: "Marker list \<Rightarrow> Marker list" where
  "Describe_sortMarkers allMarkers = sort_Stable ByNodeID_Less (sort_Stable ByKey_Less allMarkers)"

text \<open>
  \<^verbatim>\<open>createForbiddenMarkers\<close>.  The argument lists the members of the set
  \<^verbatim>\<open>forbiddenResources\<close> in the order in which the \<^verbatim>\<open>range\<close> loop visits them (Go leaves
  the order of a map's keys open).
\<close>

definition ForbiddenListWarning :: string where
  "ForbiddenListWarning = ''Forbidden''"

definition createForbiddenMarkers :: "string list \<Rightarrow> Marker list" where
  "createForbiddenMarkers forbiddenResources =
     map (\<lambda>forbiddenResource.
            \<lparr>Marker_Node = None, Marker_Severity = WarningSeverity,
             Marker_Key = ForbiddenListWarning,
             Marker_Message = ''Unable to list '' @ forbiddenResource
               @ '' resources.  Not all status relationships can be established.'',
             Marker_Suggestion = []\<rparr>)
         forbiddenResources"

subsection \<open>Loading the graph\<close>

text \<open>
  Errors as the loaders see them: a \<^verbatim>\<open>*kapierrors.StatusError\<close> with its reason and
  optional details, any other error, or the aggregate that \<^verbatim>\<open>utilerrors.NewAggregate\<close>
  builds.
\<close>

datatype StatusReason = StatusReasonForbidden | StatusReasonNotFound | StatusReasonOther string

record StatusDetails =
  StatusDetails_Kind :: string

record Status =
  Status_Reason :: StatusReason
  Status_Details :: "StatusDetails option"

datatype error = StatusError Status | OtherError string | Aggregate "error list"

fun IsForbidden :: "error \<Rightarrow> bool" where
  "IsForbidden (StatusError s) = (Status_Reason s = StatusReasonForbidden)"
| "IsForbidden _ = False"

fun IsNotFound :: "error \<Rightarrow> bool" where
  "IsNotFound (StatusError s) = (Status_Reason s = StatusReasonNotFound)"
| "IsNotFound _ = False"

definition NewAggregate :: "error list \<Rightarrow> error option" where
  "NewAggregate errlist = (if length errlist = 0 then None else Some (Aggregate errlist))"

text \<open>
  Modelled from the spec: \<^verbatim>\<open>errors.TolerateNotFoundError\<close> (package \<^verbatim>\<open>pkg/util/errors\<close>)
  is not part of the sources.  The two build-related kinds "tolerate a kind not found
  condition as an empty result rather than an error".
\<close>

definition TolerateNotFoundError :: "error \<Rightarrow> error option" where
  "TolerateNotFoundError err = (if IsNotFound err then None else Some err)"

text \<open>The ten loaders of \<^verbatim>\<open>MakeGraph\<close>, in the order of the slice \<^verbatim>\<open>loaders\<close>.\<close>

datatype loader =
  serviceLoader | serviceAccountLoader | secretLoader | rcLoader | podLoader
  | bcLoader | buildLoader | isLoader | dcLoader | routeLoader

definition loaders :: "loader list" where
  "loaders = [serviceLoader, serviceAccountLoader, secretLoader, rcLoader, podLoader,
              bcLoader, buildLoader, isLoader, dcLoader, routeLoader]"

text \<open>The thirteen edge-inference calls of \<^verbatim>\<open>MakeGraph\<close>, in program order.\<close>

datatype edgeInference =
  AddAllExposedPodTemplateSpecEdges | AddAllExposedPodEdges | AddAllManagedByRCPodEdges
  | AddAllRequestedServiceAccountEdges | AddAllMountableSecretEdges | AddAllMountedSecretEdges
  | AddAllInputOutputEdges | AddAllBuildEdges | AddAllTriggerEdges | AddAllDeploymentEdges
  | AddAllImageStreamRefEdges | AddAllImageStreamImageRefEdges | AddAllRouteEdges

definition edgeInferences :: "edgeInference list" where
  "edgeInferences =
     [AddAllExposedPodTemplateSpecEdges, AddAllExposedPodEdges, AddAllManagedByRCPodEdges,
      AddAllRequestedServiceAccountEdges, AddAllMountableSecretEdges, AddAllMountedSecretEdges,
      AddAllInputOutputEdges, AddAllBuildEdges, AddAllTriggerEdges, AddAllDeploymentEdges,
      AddAllImageStreamRefEdges, AddAllImageStreamImageRefEdges, AddAllRouteEdges]"

text \<open>
  What happens during one \<^verbatim>\<open>MakeGraph\<close>, in order: a loader's \<^verbatim>\<open>Load\<close> returns, a
  loader's \<^verbatim>\<open>AddToGraph\<close> runs, an edge-inference function runs.
\<close>

datatype event = LoadReturned loader | AddToGraphRan loader | EdgesAdded edgeInference

text \<open>
  The state that \<^verbatim>\<open>MakeGraph\<close> works on: every loader's staged \<^verbatim>\<open>items\<close> (nil at first),
  the graph, and the events so far.  The graph type, the fresh graph of \<^verbatim>\<open>osgraph.New()\<close>,
  the node insertion \<^verbatim>\<open>Ensure...Node\<close> of each loader (\<open>ensure\<close>) and the edge-inference
  functions (\<open>addEdges\<close>) belong to packages outside the sources and are parameters.
\<close>

record ('g, 'item) loadState =
  st_items :: "loader \<Rightarrow> 'item list"
  st_graph :: 'g
  st_trace :: "event list"

text \<open>
  \<^verbatim>\<open>Load\<close> of loader \<open>l\<close>: \<open>lister l\<close> is what the cluster answers to the loader's
  \<^verbatim>\<open>List\<close> call.  Only \<^verbatim>\<open>bcLoader\<close> and \<^verbatim>\<open>buildLoader\<close> pass their error through
  \<^verbatim>\<open>TolerateNotFoundError\<close>.
\<close>

definition Load ::
  "(loader \<Rightarrow> error + 'item list) \<Rightarrow> loader \<Rightarrow> ('g, 'item) loadState
     \<Rightarrow> error option \<times> ('g, 'item) loadState" where
  "Load lister l st =
     (case lister l of
        Inl err \<Rightarrow>
          (if l = bcLoader \<or> l = buildLoader then TolerateNotFoundError err else Some err,
           st\<lparr>st_trace := st_trace st @ [LoadReturned l]\<rparr>)
      | Inr list \<Rightarrow>
          (None, st\<lparr>st_items := (st_items st)(l := list),
                     st_trace := st_trace st @ [LoadReturned l]\<rparr>))"

text \<open>
  Modelled from the spec: \<^verbatim>\<open>parallel.Run\<close> (package \<^verbatim>\<open>pkg/util/parallel\<close>) is not part
  of the sources.  It executes all tasks concurrently, "the call blocks until every task
  has finished", and it returns the errors of the tasks that failed.  The order in which
  the tasks finish is not fixed by the program: it is the list \<open>sched\<close>, a permutation of
  the loaders, and the errors come back in that order.
\<close>

fun parallel_Run ::
  "(loader \<Rightarrow> error + 'item list) \<Rightarrow> loader list \<Rightarrow> ('g, 'item) loadState
     \<Rightarrow> error list \<times> ('g, 'item) loadState" where
  "parallel_Run lister [] st = ([], st)"
| "parallel_Run lister (l # sched) st =
     (case Load lister l st of
        (err, st') \<Rightarrow>
          (case parallel_Run lister sched st' of
             (errs, st'') \<Rightarrow> ((case err of None \<Rightarrow> [] | Some e \<Rightarrow> [e]) @ errs, st'')))"

text \<open>
  The loop over \<^verbatim>\<open>errs\<close>: a forbidden error adds its kind to \<^verbatim>\<open>forbiddenResources\<close> when
  it has details with a non-empty kind and is otherwise skipped; every other error is
  appended to \<^verbatim>\<open>actualErrors\<close>.
\<close>

fun classifyErrors :: "error list \<Rightarrow> string set \<times> error list \<Rightarrow> string set \<times> error list" where
  "classifyErrors [] acc = acc"
| "classifyErrors (err # errs) (forbiddenResources, actualErrors) =
     (if IsForbidden err then
        (case err of
           StatusError forbiddenErr \<Rightarrow>
             (case Status_Details forbiddenErr of
                Some details \<Rightarrow>
                  if length (StatusDetails_Kind details) > 0
                    then classifyErrors errs
                           (insert (StatusDetails_Kind details) forbiddenResources, actualErrors)
                    else classifyErrors errs (forbiddenResources, actualErrors)
              | None \<Rightarrow> classifyErrors errs (forbiddenResources, actualErrors))
         | _ \<Rightarrow> classifyErrors errs (forbiddenResources, actualErrors))
      else classifyErrors errs (forbiddenResources, actualErrors @ [err]))"

text \<open>\<^verbatim>\<open>AddToGraph\<close> of loader \<open>l\<close> and one edge-inference call, as steps on the state.\<close>

definition AddToGraph ::
  "(loader \<Rightarrow> 'item \<Rightarrow> 'g \<Rightarrow> 'g) \<Rightarrow> loader \<Rightarrow> ('g, 'item) loadState \<Rightarrow> ('g, 'item) loadState" where
  "AddToGraph ensure l st =
     st\<lparr>st_graph := fold (ensure l) (st_items st l) (st_graph st),
        st_trace := st_trace st @ [AddToGraphRan l]\<rparr>"

definition AddEdges ::
  "(edgeInference \<Rightarrow> 'g \<Rightarrow> 'g) \<Rightarrow> edgeInference \<Rightarrow> ('g, 'item) loadState \<Rightarrow> ('g, 'item) loadState" where
  "AddEdges addEdges e st =
     st\<lparr>st_graph := addEdges e (st_graph st), st_trace := st_trace st @ [EdgesAdded e]\<rparr>"

text \<open>
  \<^verbatim>\<open>MakeGraph\<close>: the three results of the Go function and the events of the run.
\<close>

record 'g makeGraphResult =
  mg_graph :: 'g
  mg_forbiddenResources :: "string set"
  mg_err :: "error option"
  mg_trace :: "event list"

definition MakeGraph ::
  "'g \<Rightarrow> (loader \<Rightarrow> 'item \<Rightarrow> 'g \<Rightarrow> 'g) \<Rightarrow> (edgeInference \<Rightarrow> 'g \<Rightarrow> 'g)
     \<Rightarrow> (loader \<Rightarrow> error + 'item list) \<Rightarrow> loader list \<Rightarrow> 'g makeGraphResult" where
  "MakeGraph new ensure addEdges lister sched =
     (let g = \<lparr>st_items = (\<lambda>l. []), st_graph = new, st_trace = []\<rparr> in
      case parallel_Run lister sched g of
        (errs, st) \<Rightarrow>
          (case (if length errs > 0 then classifyErrors errs ({}, []) else ({}, [])) of
             (forbiddenResources, actualErrors) \<Rightarrow>
               if length errs > 0 \<and> length actualErrors > 0
                 then \<lparr>mg_graph = st_graph st, mg_forbiddenResources = forbiddenResources,
                       mg_err = NewAggregate actualErrors, mg_trace = st_trace st\<rparr>
               else
                 (let st = fold (AddToGraph ensure) loaders st;
                      st = fold (AddEdges addEdges) edgeInferences st
                  in \<lparr>mg_graph = st_graph st, mg_forbiddenResources = forbiddenResources,
                       mg_err = None, mg_trace = st_trace st\<rparr>)))"

text \<open>
  Three notions read off the definitions above, used to state what \<^verbatim>\<open>MakeGraph\<close>
  returns: the error that \<^verbatim>\<open>Load\<close> of a loader returns, the items it stages, and the
  kind that a forbidden error contributes to \<^verbatim>\<open>forbiddenResources\<close>.
\<close>

definition loadError :: "(loader \<Rightarrow> error + 'item list) \<Rightarrow> loader \<Rightarrow> error option" where
  "loadError lister l =
     (case lister l of
        Inl err \<Rightarrow> if l = bcLoader \<or> l = buildLoader then TolerateNotFoundError err else Some err
      | Inr list \<Rightarrow> None)"

definition stagedItems :: "(loader \<Rightarrow> error + 'item list) \<Rightarrow> loader \<Rightarrow> 'item list" where
  "stagedItems lister l = (case lister l of Inl err \<Rightarrow> [] | Inr list \<Rightarrow> list)"

fun deniedKind :: "error \<Rightarrow> string option" where
  "deniedKind (StatusError s) =
     (if Status_Reason s = StatusReasonForbidden then
        (case Status_Details s of
           Some details \<Rightarrow>
             if StatusDetails_Kind details \<noteq> [] then Some (StatusDetails_Kind details) else None
         | None \<Rightarrow> None)
      else None)"
| "deniedKind _ = None"

text \<open>The stage of \<^verbatim>\<open>MakeGraph\<close> that an event belongs to: loading, inserting nodes, linking.\<close>

fun eventStage :: "event \<Rightarrow> nat" where
  "eventStage (LoadReturned l) = 0"
| "eventStage (AddToGraphRan l) = 1"
| "eventStage (EdgesAdded e) = 2"

subsection \<open>Coverage passes\<close>

text \<open>
  The five passes of \<^verbatim>\<open>Describe\<close> over the graph.  The pass functions belong to the
  package \<^verbatim>\<open>graphview\<close>, outside the sources; each is a parameter that takes the graph
  and the covered set and returns its views and the set of node IDs it covers (a pass
  reads the covered set it is given and leaves it as it is).
  Modelled from the spec: \<^verbatim>\<open>graphview.IntSet\<close> is not part of the sources either; it is
  "a set of NodeIDs", and with \<^verbatim>\<open>coveredNodes.Insert(covered.List()...)\<close> "the caller
  unions that into the running covered set".
  Besides the five lists of views and the final covered set, the result records which
  pass was called with which covered set, and the value of \<^verbatim>\<open>coveredNodes\<close> at its
  creation and after each \<^verbatim>\<open>Insert\<close>.
\<close>

datatype pass =
  AllServiceGroups | AllDeploymentConfigPipelines | AllReplicationControllers
  | AllImagePipelinesFromBuildConfig | AllPods

record ('s, 'd, 'r, 'i, 'p) coverage =
  cov_services :: "'s list"
  cov_standaloneDCs :: "'d list"
  cov_standaloneRCs :: "'r list"
  cov_standaloneImages :: "'i list"
  cov_standalonePods :: "'p list"
  cov_coveredNodes :: "int set"
  cov_passCalls :: "(pass \<times> int set) list"
  cov_coveredHistory :: "int set list"

definition Describe_cover ::
  "('g \<Rightarrow> int set \<Rightarrow> 's list \<times> int set) \<Rightarrow> ('g \<Rightarrow> int set \<Rightarrow> 'd list \<times> int set)
     \<Rightarrow> ('g \<Rightarrow> int set \<Rightarrow> 'r list \<times> int set) \<Rightarrow> ('g \<Rightarrow> int set \<Rightarrow> 'i list \<times> int set)
     \<Rightarrow> ('g \<Rightarrow> int set \<Rightarrow> 'p list \<times> int set) \<Rightarrow> 'g \<Rightarrow> ('s, 'd, 'r, 'i, 'p) coverage" where
  "Describe_cover allServiceGroups allDeploymentConfigPipelines allReplicationControllers
       allImagePipelinesFromBuildConfig allPods g =
     (let coveredNodes0 = {} in
      case allServiceGroups g coveredNodes0 of (services, coveredByServices) \<Rightarrow>
      let coveredNodes1 = coveredNodes0 \<union> coveredByServices in
      case allDeploymentConfigPipelines g coveredNodes1 of (standaloneDCs, coveredByDCs) \<Rightarrow>
      let coveredNodes2 = coveredNodes1 \<union> coveredByDCs in
      case allReplicationControllers g coveredNodes2 of (standaloneRCs, coveredByRCs) \<Rightarrow>
      let coveredNodes3 = coveredNodes2 \<union> coveredByRCs in
      case allImagePipelinesFromBuildConfig g coveredNodes3 of (standaloneImages, coveredByImages) \<Rightarrow>
      let coveredNodes4 = coveredNodes3 \<union> coveredByImages in
      case allPods g coveredNodes4 of (standalonePods, coveredByPods) \<Rightarrow>
      let coveredNodes5 = coveredNodes4 \<union> coveredByPods in
      \<lparr>cov_services = services, cov_standaloneDCs = standaloneDCs, cov_standaloneRCs = standaloneRCs,
       cov_standaloneImages = standaloneImages, cov_standalonePods = standalonePods,
       cov_coveredNodes = coveredNodes5,
       cov_passCalls = [(AllServiceGroups, coveredNodes0),
                    (AllDeploymentConfigPipelines, coveredNodes1),
                    (AllReplicationControllers, coveredNodes2),
                    (AllImagePipelinesFromBuildConfig, coveredNodes3),
                    (AllPods, coveredNodes4)],
       cov_coveredHistory = [coveredNodes0, coveredNodes1, coveredNodes2, coveredNodes3,
                         coveredNodes4, coveredNodes5]\<rparr>)"

subsection \<open>Standalone pods worth printing\<close>

text \<open>
  The fields of \<^verbatim>\<open>kapi.Pod\<close> that \<^verbatim>\<open>filterBoringPods\<close> reads, and a pod node with its
  node ID.  \<^verbatim>\<open>Object()\<close> of a pod node is its pod, and \<^verbatim>\<open>kapi.ObjectMetaFor\<close> of a pod
  is its object meta; the branches for another kind of object and for an error are kept
  as the function has them.
\<close>

record ObjectMeta =
  ObjectMeta_Labels :: "string \<rightharpoonup> string"
  ObjectMeta_Annotations :: "string \<rightharpoonup> string"

record Pod =
  Pod_ObjectMeta :: ObjectMeta
  Pod_Phase :: string

record PodNode =
  PodNode_ID :: int
  PodNode_Pod :: Pod

datatype Object = PodObject Pod | OtherObject

definition PodNode_Object :: "PodNode \<Rightarrow> Object" where
  "PodNode_Object n = PodObject (PodNode_Pod n)"

definition ObjectMetaFor :: "Pod \<Rightarrow> error + ObjectMeta" where
  "ObjectMetaFor p = Inr (Pod_ObjectMeta p)"

definition PodSucceeded :: string where
  "PodSucceeded = ''Succeeded''"

definition PodFailed :: string where
  "PodFailed = ''Failed''"

text \<open>
  \<^verbatim>\<open>filterBoringPods\<close>; the label key \<^verbatim>\<open>deployapi.DeployerPodForDeploymentLabel\<close> and the
  annotation key \<^verbatim>\<open>buildapi.BuildAnnotation\<close> are constants of packages outside the
  sources and are parameters.  The loop carries \<^verbatim>\<open>monopods\<close>.
\<close>

fun filterBoringPods_loop ::
  "string \<Rightarrow> string \<Rightarrow> PodNode list \<Rightarrow> PodNode list \<Rightarrow> error + PodNode list" where
  "filterBoringPods_loop DeployerPodForDeploymentLabel BuildAnnotation monopods [] = Inr monopods"
| "filterBoringPods_loop DeployerPodForDeploymentLabel BuildAnnotation monopods (pod # pods) =
     (case PodNode_Object pod of
        OtherObject \<Rightarrow>
          filterBoringPods_loop DeployerPodForDeploymentLabel BuildAnnotation monopods pods
      | PodObject actualPod \<Rightarrow>
          (case ObjectMetaFor actualPod of
             Inl err \<Rightarrow> Inl err
           | Inr meta \<Rightarrow>
               (let isDeployerPod = (ObjectMeta_Labels meta DeployerPodForDeploymentLabel \<noteq> None);
                    isBuilderPod = (ObjectMeta_Annotations meta BuildAnnotation \<noteq> None);
                    isFinished = (Pod_Phase actualPod = PodSucceeded \<or> Pod_Phase actualPod = PodFailed)
                in if isDeployerPod \<or> isBuilderPod \<or> isFinished
                     then filterBoringPods_loop DeployerPodForDeploymentLabel BuildAnnotation
                            monopods pods
                     else filterBoringPods_loop DeployerPodForDeploymentLabel BuildAnnotation
                            (monopods @ [pod]) pods)))"

definition filterBoringPods :: "string \<Rightarrow> string \<Rightarrow> PodNode list \<Rightarrow> error + PodNode list" where
  "filterBoringPods DeployerPodForDeploymentLabel BuildAnnotation pods =
     filterBoringPods_loop DeployerPodForDeploymentLabel BuildAnnotation [] pods"

section \<open>Properties\<close>

subsection \<open>Go's insertion sort\<close>

lemma mset_bubble: "mset (bubble lt x rs) = add_mset x (mset rs)"
  by (induction rs) auto

lemma set_bubble: "set (bubble lt x rs) = insert x (set rs)"
  by (induction rs) auto

lemma mset_insertionLoop: "mset (insertionLoop lt rs xs) = mset rs + mset xs"
  by (induction xs arbitrary: rs) (auto simp: mset_bubble)

lemma mset_insertionSort: "mset (insertionSort lt xs) = mset xs"
  by (simp add: insertionSort_def mset_insertionLoop)

lemma desc_bubble:
  fixes f :: "'a \<Rightarrow> 'k::linorder"
  assumes lt: "\<And>x y. lt x y \<longleftrightarrow> f x < f y"
  shows "sorted_wrt (\<lambda>a b. f b \<le> f a) rs \<Longrightarrow> sorted_wrt (\<lambda>a b. f b \<le> f a) (bubble lt x rs)"
proof (induction rs)
  case Nil
  show ?case by simp
next
  case (Cons y rs)
  show ?case
  proof (cases "lt x y")
    case True
    with Cons lt show ?thesis by (auto simp: set_bubble)
  next
    case False
    with Cons lt show ?thesis by (auto simp: not_less intro: order_trans)
  qed
qed

lemma desc_insertionLoop:
  fixes f :: "'a \<Rightarrow> 'k::linorder"
  assumes lt: "\<And>x y. lt x y \<longleftrightarrow> f x < f y"
  shows "sorted_wrt (\<lambda>a b. f b \<le> f a) rs \<Longrightarrow>
         sorted_wrt (\<lambda>a b. f b \<le> f a) (insertionLoop lt rs xs)"
  by (induction xs arbitrary: rs) (auto simp: desc_bubble [OF lt])

lemma sorted_insertionSort:
  fixes f :: "'a \<Rightarrow> 'k::linorder"
  assumes lt: "\<And>x y. lt x y \<longleftrightarrow> f x < f y"
  shows "sorted (map f (insertionSort lt xs))"
proof -
  have "sorted_wrt (\<lambda>a b. f b \<le> f a) (insertionLoop lt [] xs)"
    by (rule desc_insertionLoop [OF lt]) simp
  then have "sorted_wrt (\<lambda>a b. f a \<le> f b) (rev (insertionLoop lt [] xs))"
    by (simp add: sorted_wrt_rev)
  then show ?thesis
    by (simp add: insertionSort_def sorted_map)
qed

lemma filter_bubble:
  assumes "\<And>y. y \<in> set rs \<Longrightarrow> P x \<Longrightarrow> P y \<Longrightarrow> \<not> lt x y"
  shows "filter P (bubble lt x rs) = (if P x then x # filter P rs else filter P rs)"
  using assms by (induction rs) auto

lemma filter_insertionLoop:
  assumes "\<And>x y. P x \<Longrightarrow> P y \<Longrightarrow> \<not> lt x y"
  shows "filter P (insertionLoop lt rs xs) = rev (filter P xs) @ filter P rs"
  using assms by (induction xs arbitrary: rs) (simp_all add: filter_bubble)

lemma filter_insertionSort:
  assumes "\<And>x y. P x \<Longrightarrow> P y \<Longrightarrow> \<not> lt x y"
  shows "filter P (insertionSort lt xs) = filter P xs"
  using filter_insertionLoop [of P lt "[]" xs] assms
  by (simp add: insertionSort_def rev_filter [symmetric])

subsection \<open>The route comparator as a key comparison\<close>

lemma IndexByte_takeWhile:
  "(if IndexByte s c = - 1 then int (length s) else IndexByte s c)
     = int (length (takeWhile (\<lambda>x. x \<noteq> c) s))"
proof (induction s)
  case Nil
  show ?case by simp
next
  case (Cons x s)
  have "IndexByte s c \<ge> - 1" for s
    by (induction s) (auto simp: Let_def)
  with Cons show ?case
    by (auto simp: Let_def split: if_splits)
qed

lemma hostLess_key: "hostLess a b \<longleftrightarrow> (lengthToSpace a, a) < (lengthToSpace b, b)"
  using IndexByte_takeWhile [of a "CHR '' ''"] IndexByte_takeWhile [of b "CHR '' ''"]
  by (auto simp: hostLess_def lengthToSpace_def Let_def split: if_splits)

lemma HasPrefix_split: "HasPrefix s p \<Longrightarrow> s = p @ drop (length p) s"
  by (metis HasPrefix_def append_take_drop_id)

lemma append_less_cancel: "(p @ a < p @ b) \<longleftrightarrow> (a < (b :: string))"
  by (induction p) auto

lemma lengthToSpace_append:
  "CHR '' '' \<notin> set p \<Longrightarrow> lengthToSpace (p @ s) = length p + lengthToSpace s"
  by (induction p) (auto simp: lengthToSpace_def)

lemma hostLess_strip:
  assumes "HasPrefix a p" "HasPrefix b p" "CHR '' '' \<notin> set p" "length p = n"
  shows "hostLess (drop n a) (drop n b)
           \<longleftrightarrow> (lengthToSpace a, a) < (lengthToSpace b, b)"
proof -
  obtain a' b' where a: "a = p @ a'" and b: "b = p @ b'"
    using assms HasPrefix_split by blast
  show ?thesis
    unfolding hostLess_key a b
    using assms(3,4) by (simp add: lengthToSpace_append append_less_cancel)
qed

lemma https_not_http: "HasPrefix s ''https://'' \<Longrightarrow> \<not> HasPrefix s ''http://''"
  by (auto simp: HasPrefix_def take_Suc_conv_app_nth split: if_splits) 

lemma exposedRoutes_Less_key: "exposedRoutes_Less a b \<longleftrightarrow> routeKey a < routeKey b"
proof -
  have s8: "HasPrefix a ''https://'' \<Longrightarrow> HasPrefix b ''https://'' \<Longrightarrow>
      hostLess (drop 8 a) (drop 8 b) \<longleftrightarrow> (lengthToSpace a, a) < (lengthToSpace b, b)"
    using hostLess_strip [of a "''https://''" b 8] by simp
  have s7: "HasPrefix a ''http://'' \<Longrightarrow> HasPrefix b ''http://'' \<Longrightarrow>
      hostLess (drop 7 a) (drop 7 b) \<longleftrightarrow> (lengthToSpace a, a) < (lengthToSpace b, b)"
    using hostLess_strip [of a "''http://''" b 7] by simp
  show ?thesis
    using s7 s8 https_not_http [of a] https_not_http [of b]
    unfolding exposedRoutes_Less_def routeKey_def schemeRank_def Let_def
    by (auto split: if_splits)
qed

subsection \<open>Build timestamp fallback chain\<close>

text \<open>
  C10.  The timestamp that orders builds is a fixed fallback chain: a nil build has the
  zero time; otherwise it is the completion timestamp when that is set and non-zero,
  else the start timestamp when that is set and non-zero, else the creation timestamp.
  \<^verbatim>\<open>describeAdditionalBuildDetail\<close> decides with exactly these timestamps: the last
  unsuccessful build is shown only when the last successful build's timestamp lies
  before its own, and the active builds are listed after the terminal builds exactly
  when the first active build's timestamp lies before the later of the two.
\<close>

theorem buildTimestamp_fallback_chain:
  "buildTimestamp None = 0
   \<and> buildTimestamp (Some b) =
       (if build_CompletionTimestamp b \<noteq> None \<and> build_CompletionTimestamp b \<noteq> Some 0
          then the (build_CompletionTimestamp b)
        else if build_StartTimestamp b \<noteq> None \<and> build_StartTimestamp b \<noteq> Some 0
          then the (build_StartTimestamp b)
        else build_CreationTimestamp b)
   \<and> describeAdditionalBuildDetail phase (Some parent) (Some s) (Some u) (a # as) r i =
       Some (let terminal =
                   phase s (Some (buildTimestamp (Some s))) parent r #
                   (if buildTimestamp (Some s) < buildTimestamp (Some u)
                      then [phase u (Some (buildTimestamp (Some u))) parent r] else []);
                 active = map (\<lambda>x. phase x None parent r) (a # as)
             in if buildTimestamp (Some a)
                     < max (buildTimestamp (Some s)) (buildTimestamp (Some u))
                  then terminal @ active else active @ terminal)"
  by (auto simp: buildTimestamp_def describeAdditionalBuildDetail_def ptr_IsZero_def
      IsZero_def Time_zero_def Before_def After_def Let_def max_def split: option.splits)

subsection \<open>Route ranking\<close>

text \<open>
  C6.  The comparator is documented as ordering by scheme, then by the distance up to the
  first space, then alphabetically, and the claim states that three-level comparison for
  every pair of strings.  For two strings that carry neither scheme the code returns the
  comparison of the raw strings at once: \<open>b\<close> is shorter than \<open>aa\<close> and yet sorts after
  it, and \<^verbatim>\<open>route/aa has no host set\<close> is put before \<^verbatim>\<open>route/b has no host set\<close>.  With
  either scheme in front, the same two strings are ordered by length, shorter first.
\<close>

theorem exposedRoutes_Less_not_three_level:
  "spec_routeLess ''b'' ''aa'' \<and> \<not> exposedRoutes_Less ''b'' ''aa''
   \<and> exposedRoutes_Less ''aa'' ''b''
   \<and> exposedRoutes_Less ''https://b'' ''https://aa''
   \<and> exposedRoutes_Less ''http://b'' ''http://aa''
   \<and> spec_routeLess ''route/b has no host set'' ''route/aa has no host set''
   \<and> sort_Sort exposedRoutes_Less [''route/b has no host set'', ''route/aa has no host set'']
       = [''route/aa has no host set'', ''route/b has no host set'']"
  by code_simp

text \<open>
  What the comparator is on all strings: the strict total order of the key (scheme
  priority; then, for strings carrying \<^verbatim>\<open>https://\<close> or \<^verbatim>\<open>http://\<close> only, the length up to
  the first space; then the raw string).  It is irreflexive, transitive, and of any two
  strings exactly one is less than the other unless they are equal.  Sorting with it
  yields a permutation sorted by that key, and the three example routes come out as
  \<^verbatim>\<open>https://a\<close>, \<^verbatim>\<open>https://z\<close>, \<^verbatim>\<open>http://a\<close>.
\<close>

theorem exposedRoutes_Less_strict_total_order:
  "(exposedRoutes_Less a b \<longleftrightarrow> routeKey a < routeKey b)
   \<and> \<not> exposedRoutes_Less a a
   \<and> (exposedRoutes_Less a b \<and> exposedRoutes_Less b c \<longrightarrow> exposedRoutes_Less a c)
   \<and> \<not> (exposedRoutes_Less a b \<and> exposedRoutes_Less b a)
   \<and> (a \<noteq> b \<longleftrightarrow> exposedRoutes_Less a b \<or> exposedRoutes_Less b a)
   \<and> mset (sort_Sort exposedRoutes_Less xs) = mset xs
   \<and> sorted (map routeKey (sort_Sort exposedRoutes_Less xs))
   \<and> sort_Sort exposedRoutes_Less [''http://a'', ''https://z'', ''https://a'']
       = [''https://a'', ''https://z'', ''http://a'']"
proof -
  have inj: "routeKey x = routeKey y \<longleftrightarrow> x = y" for x y
    by (auto simp: routeKey_def)
  have total: "a \<noteq> b \<longleftrightarrow> routeKey a < routeKey b \<or> routeKey b < routeKey a"
    using inj [of a b] by (metis less_irrefl linorder_less_linear)
  have ex: "sort_Sort exposedRoutes_Less [''http://a'', ''https://z'', ''https://a'']
       = [''https://a'', ''https://z'', ''http://a'']"
    by code_simp
  have srt: "sorted (map routeKey (sort_Sort exposedRoutes_Less xs))"
    unfolding sort_Sort_def by (rule sorted_insertionSort) (rule exposedRoutes_Less_key)
  have perm: "mset (sort_Sort exposedRoutes_Less xs) = mset xs"
    by (simp add: sort_Sort_def mset_insertionSort)
  have ord: "\<not> exposedRoutes_Less a a
      \<and> (exposedRoutes_Less a b \<and> exposedRoutes_Less b c \<longrightarrow> exposedRoutes_Less a c)
      \<and> \<not> (exposedRoutes_Less a b \<and> exposedRoutes_Less b a)
      \<and> (a \<noteq> b \<longleftrightarrow> exposedRoutes_Less a b \<or> exposedRoutes_Less b a)"
    unfolding exposedRoutes_Less_key
    using total by (auto simp del: less_prod_simp)
  from ord ex srt perm exposedRoutes_Less_key [of a b] show ?thesis
    by blast
qed

theorem exposedRoutes_Less_strict_total_order_example:
  "exposedRoutes_Less ''https://a'' ''https://z''
   \<and> exposedRoutes_Less ''https://z'' ''http://a''
   \<and> exposedRoutes_Less ''https://a'' ''http://a''
   \<and> \<not> exposedRoutes_Less ''http://a'' ''https://a''"
proof -
  have h1: "exposedRoutes_Less ''https://a'' ''https://z''" by code_simp
  have h2: "exposedRoutes_Less ''https://z'' ''http://a''" by code_simp
  from exposedRoutes_Less_strict_total_order
    [of "''https://a''" "''https://z''" "''http://a''" "[]"] h1 h2
  have h3: "exposedRoutes_Less ''https://a'' ''http://a''" by blast
  from exposedRoutes_Less_strict_total_order
    [of "''https://a''" "''http://a''" "''http://a''" "[]"] h3
  have "\<not> exposedRoutes_Less ''http://a'' ''https://a''" by blast
  with h1 h2 h3 show ?thesis by blast
qed

subsection \<open>Summary line\<close>

lemma errorSuggestions_pos:
  "errorSuggestions ms > 0 \<longleftrightarrow> (\<exists>m\<in>set ms. Marker_Suggestion m \<noteq> [])"
  by (induction ms) auto

lemma Itoa_2: "Itoa 2 = ''2''"
  by code_simp

text \<open>
  C5, as stated, fails in its example: two error markers, no warning and suggest mode off
  do not by themselves give the error-only line.  When neither error marker carries a
  suggestion the second case is skipped, and with a service present the report ends with
  the generic guidance.
\<close>

theorem Describe_summary_two_errors_without_suggestion:
  "Describe_summary False
      [\<lparr>Marker_Node = Some 1, Marker_Severity = ErrorSeverity, Marker_Key = ''k'',
         Marker_Message = ''m'', Marker_Suggestion = []\<rparr>,
       \<lparr>Marker_Node = Some 2, Marker_Severity = ErrorSeverity, Marker_Key = ''k'',
         Marker_Message = ''m'', Marker_Suggestion = []\<rparr>] [] [()] ([] :: unit list) ([] :: unit list)
     \<noteq> ''2 errors identified, use 'oc status -v' to see details.'' @ newline
   \<and> Describe_summary False
      [\<lparr>Marker_Node = Some 1, Marker_Severity = ErrorSeverity, Marker_Key = ''k'',
         Marker_Message = ''m'', Marker_Suggestion = []\<rparr>,
       \<lparr>Marker_Node = Some 2, Marker_Severity = ErrorSeverity, Marker_Key = ''k'',
         Marker_Message = ''m'', Marker_Suggestion = []\<rparr>] [] [()] ([] :: unit list) ([] :: unit list)
     = ''View details with 'oc describe <resource>/<name>' or list everything with 'oc get all'.''
        @ newline"
  by code_simp

text \<open>
  C5, amended.  The summary is chosen in this priority: suggest mode off with errors and
  warnings gives the combined line; suggest mode off with errors, no warning and at least
  one error marker carrying a suggestion gives the error-only line; suggest mode off with
  warnings and no error gives the warning-only line; in every other situation the
  "no resources" guidance when there are no services, deployment-config pipelines or image
  groups, and the generic guidance otherwise.  Two error markers of which at least one
  carries a suggestion, no warning and suggest mode off give the exact line
  \<^verbatim>\<open>2 errors identified, use 'oc status -v' to see details.\<close>
\<close>

theorem Describe_summary_decision_table:
  "(\<not> Suggest \<and> errs \<noteq> [] \<and> warns \<noteq> [] \<longrightarrow>
      Describe_summary Suggest errs warns svcs dcs imgs =
        (if length errs = 1 then ''1 error'' else Itoa (int (length errs)) @ '' errors'')
        @ '' and ''
        @ (if length warns = 1 then ''1 warning'' else Itoa (int (length warns)) @ '' warnings'')
        @ '' identified, use 'oc status -v' to see details.'' @ newline)
   \<and> (\<not> Suggest \<and> errs \<noteq> [] \<and> warns = [] \<and> (\<exists>m\<in>set errs. Marker_Suggestion m \<noteq> []) \<longrightarrow>
      Describe_summary Suggest errs warns svcs dcs imgs =
        (if length errs = 1 then ''1 error'' else Itoa (int (length errs)) @ '' errors'')
        @ '' identified, use 'oc status -v' to see details.'' @ newline)
   \<and> (\<not> Suggest \<and> errs = [] \<and> warns \<noteq> [] \<longrightarrow>
      Describe_summary Suggest errs warns svcs dcs imgs =
        (if length warns = 1 then ''1 warning'' else Itoa (int (length warns)) @ '' warnings'')
        @ '' identified, use 'oc status -v' to see details.'' @ newline)
   \<and> ((Suggest \<or> warns = [] \<and> (\<forall>m\<in>set errs. Marker_Suggestion m = []))
        \<and> svcs = [] \<and> dcs = [] \<and> imgs = [] \<longrightarrow>
      Describe_summary Suggest errs warns svcs dcs imgs =
        ''You have no services, deployment configs, or build configs.'' @ newline
        @ ''Run 'oc new-app' to create an application.'' @ newline)
   \<and> ((Suggest \<or> warns = [] \<and> (\<forall>m\<in>set errs. Marker_Suggestion m = []))
        \<and> \<not> (svcs = [] \<and> dcs = [] \<and> imgs = []) \<longrightarrow>
      Describe_summary Suggest errs warns svcs dcs imgs =
        ''View details with 'oc describe <resource>/<name>' or list everything with 'oc get all'.''
        @ newline)
   \<and> (Marker_Suggestion e1 \<noteq> [] \<or> Marker_Suggestion e2 \<noteq> [] \<longrightarrow>
      Describe_summary False [e1, e2] [] svcs dcs imgs =
        ''2 errors identified, use 'oc status -v' to see details.'' @ newline)"
proof -
  have len1: "length xs = Suc 0 \<or> Suc 0 < length xs" if "xs \<noteq> []" for xs :: "Marker list"
    using that by (cases xs) auto
  have nosug: "errorSuggestions errs = 0" if "\<forall>m\<in>set errs. Marker_Suggestion m = []"
    using that errorSuggestions_pos [of errs] by auto
  have c1: "\<not> Suggest \<and> errs \<noteq> [] \<and> warns \<noteq> [] \<longrightarrow>
      Describe_summary Suggest errs warns svcs dcs imgs =
        (if length errs = 1 then ''1 error'' else Itoa (int (length errs)) @ '' errors'')
        @ '' and ''
        @ (if length warns = 1 then ''1 warning'' else Itoa (int (length warns)) @ '' warnings'')
        @ '' identified, use 'oc status -v' to see details.'' @ newline"
    using len1 [of errs] len1 [of warns] by (auto simp: Describe_summary_def Let_def)
  have c2: "\<not> Suggest \<and> errs \<noteq> [] \<and> warns = [] \<and> (\<exists>m\<in>set errs. Marker_Suggestion m \<noteq> []) \<longrightarrow>
      Describe_summary Suggest errs warns svcs dcs imgs =
        (if length errs = 1 then ''1 error'' else Itoa (int (length errs)) @ '' errors'')
        @ '' identified, use 'oc status -v' to see details.'' @ newline"
    using len1 [of errs] errorSuggestions_pos [of errs]
    by (auto simp: Describe_summary_def Let_def)
  have c3: "\<not> Suggest \<and> errs = [] \<and> warns \<noteq> [] \<longrightarrow>
      Describe_summary Suggest errs warns svcs dcs imgs =
        (if length warns = 1 then ''1 warning'' else Itoa (int (length warns)) @ '' warnings'')
        @ '' identified, use 'oc status -v' to see details.'' @ newline"
    using len1 [of warns] by (auto simp: Describe_summary_def Let_def)
  have c4: "(Suggest \<or> warns = [] \<and> (\<forall>m\<in>set errs. Marker_Suggestion m = []))
        \<and> svcs = [] \<and> dcs = [] \<and> imgs = [] \<longrightarrow>
      Describe_summary Suggest errs warns svcs dcs imgs =
        ''You have no services, deployment configs, or build configs.'' @ newline
        @ ''Run 'oc new-app' to create an application.'' @ newline"
    using nosug by (auto simp: Describe_summary_def Let_def)
  have c5: "(Suggest \<or> warns = [] \<and> (\<forall>m\<in>set errs. Marker_Suggestion m = []))
        \<and> \<not> (svcs = [] \<and> dcs = [] \<and> imgs = []) \<longrightarrow>
      Describe_summary Suggest errs warns svcs dcs imgs =
        ''View details with 'oc describe <resource>/<name>' or list everything with 'oc get all'.''
        @ newline"
    using nosug by (auto simp: Describe_summary_def Let_def)
  have c6: "Marker_Suggestion e1 \<noteq> [] \<or> Marker_Suggestion e2 \<noteq> [] \<longrightarrow>
      Describe_summary False [e1, e2] [] svcs dcs imgs =
        ''2 errors identified, use 'oc status -v' to see details.'' @ newline"
    by (auto simp: Describe_summary_def Let_def Itoa_2)
  from c1 c2 c3 c4 c5 c6 show ?thesis by blast
qed

theorem Describe_summary_decision_table_witness:
  "Describe_summary False
      [\<lparr>Marker_Node = Some 1, Marker_Severity = ErrorSeverity, Marker_Key = ''k'',
         Marker_Message = ''m'', Marker_Suggestion = ''oc logs''\<rparr>,
       \<lparr>Marker_Node = Some 2, Marker_Severity = ErrorSeverity, Marker_Key = ''k'',
         Marker_Message = ''m'', Marker_Suggestion = []\<rparr>] [] [()] ([] :: unit list) ([] :: unit list)
     = ''2 errors identified, use 'oc status -v' to see details.'' @ newline
   \<and> Describe_summary False
      [\<lparr>Marker_Node = Some 1, Marker_Severity = ErrorSeverity, Marker_Key = ''k'',
         Marker_Message = ''m'', Marker_Suggestion = []\<rparr>]
      [\<lparr>Marker_Node = None, Marker_Severity = WarningSeverity, Marker_Key = ''w'',
         Marker_Message = ''m'', Marker_Suggestion = []\<rparr>] [()] ([] :: unit list) ([] :: unit list)
     = ''1 error and 1 warning identified, use 'oc status -v' to see details.'' @ newline
   \<and> Describe_summary False []
      [\<lparr>Marker_Node = None, Marker_Severity = WarningSeverity, Marker_Key = ''w'',
         Marker_Message = ''m'', Marker_Suggestion = []\<rparr>] [()] ([] :: unit list) ([] :: unit list)
     = ''1 warning identified, use 'oc status -v' to see details.'' @ newline
   \<and> Describe_summary False [] [] ([] :: unit list) ([] :: unit list) ([] :: unit list)
     = ''You have no services, deployment configs, or build configs.'' @ newline
        @ ''Run 'oc new-app' to create an application.'' @ newline
   \<and> Describe_summary True [] [] [()] ([] :: unit list) ([] :: unit list)
     = ''View details with 'oc describe <resource>/<name>' or list everything with 'oc get all'.''
        @ newline"
  using
    Describe_summary_decision_table [of False "[]" "[]" "[()]" "[] :: unit list" "[] :: unit list"
      "\<lparr>Marker_Node = Some 1, Marker_Severity = ErrorSeverity, Marker_Key = ''k'',
         Marker_Message = ''m'', Marker_Suggestion = ''oc logs''\<rparr>"
      "\<lparr>Marker_Node = Some 2, Marker_Severity = ErrorSeverity, Marker_Key = ''k'',
         Marker_Message = ''m'', Marker_Suggestion = []\<rparr>"]
    Describe_summary_decision_table [of False
      "[\<lparr>Marker_Node = Some 1, Marker_Severity = ErrorSeverity, Marker_Key = ''k'',
         Marker_Message = ''m'', Marker_Suggestion = []\<rparr>]"
      "[\<lparr>Marker_Node = None, Marker_Severity = WarningSeverity, Marker_Key = ''w'',
         Marker_Message = ''m'', Marker_Suggestion = []\<rparr>]" "[()]" "[] :: unit list" "[] :: unit list"]
    Describe_summary_decision_table [of False "[]"
      "[\<lparr>Marker_Node = None, Marker_Severity = WarningSeverity, Marker_Key = ''w'',
         Marker_Message = ''m'', Marker_Suggestion = []\<rparr>]" "[()]" "[] :: unit list" "[] :: unit list"]
    Describe_summary_decision_table [of False "[]" "[]" "[] :: unit list" "[] :: unit list" "[] :: unit list"]
    Describe_summary_decision_table [of True "[]" "[]" "[()]" "[] :: unit list" "[] :: unit list"]
  by simp

subsection \<open>What MakeGraph returns\<close>

lemma Load_fst: "fst (Load lister l st) = loadError lister l"
  by (simp add: Load_def loadError_def split: sum.splits)

lemma Load_snd:
  "snd (Load lister l st) =
     st\<lparr>st_items := (st_items st)(l := (case lister l of Inl err \<Rightarrow> st_items st l | Inr list \<Rightarrow> list)),
        st_trace := st_trace st @ [LoadReturned l]\<rparr>"
  by (simp add: Load_def split: sum.splits)

lemma parallel_Run_errs:
  "fst (parallel_Run lister sched st) = concat (map (\<lambda>l. case loadError lister l of None \<Rightarrow> [] | Some e \<Rightarrow> [e]) sched)"
proof (induction sched arbitrary: st)
  case Nil
  show ?case by simp
next
  case (Cons l sched)
  show ?case
    using Cons.IH [of "snd (Load lister l st)"] Load_fst [of lister l st]
    by (auto split: prod.splits)
qed

lemma parallel_Run_state:
  "st_graph (snd (parallel_Run lister sched st)) = st_graph st
   \<and> st_trace (snd (parallel_Run lister sched st)) = st_trace st @ map LoadReturned sched
   \<and> (st_items st = (\<lambda>l. []) \<longrightarrow>
        st_items (snd (parallel_Run lister sched st)) =
          (\<lambda>l. if l \<in> set sched then stagedItems lister l else []))"
proof -
  have g: "st_graph (snd (parallel_Run lister sched st)) = st_graph st
       \<and> st_trace (snd (parallel_Run lister sched st)) = st_trace st @ map LoadReturned sched
       \<and> st_items (snd (parallel_Run lister sched st)) =
          (\<lambda>l. if l \<in> set sched \<and> (\<exists>xs. lister l = Inr xs) then stagedItems lister l
                else st_items st l)"
  proof (induction sched arbitrary: st)
    case Nil
    show ?case by simp
  next
    case (Cons l sched)
    show ?case
      using Cons.IH [of "snd (Load lister l st)"] Load_snd [of lister l st]
      by (auto simp: stagedItems_def fun_eq_iff split: prod.splits sum.splits)
  qed
  then show ?thesis
    by (auto simp: fun_eq_iff stagedItems_def split: sum.splits)
qed

lemma classifyErrors_closed:
  "classifyErrors errs (F, A) =
     (F \<union> {k. \<exists>e\<in>set errs. deniedKind e = Some k}, A @ filter (\<lambda>e. \<not> IsForbidden e) errs)"
proof (induction errs arbitrary: F A)
  case Nil
  show ?case by simp
next
  case (Cons e errs)
  show ?case
  proof (cases e)
    case (StatusError s)
    then show ?thesis
      using Cons.IH by (auto split: option.splits)
  next
    case (OtherError x)
    then show ?thesis using Cons.IH by auto
  next
    case (Aggregate x)
    then show ?thesis using Cons.IH by auto
  qed
qed

lemma fold_AddToGraph:
  "fold (AddToGraph ensure) ls st =
     st\<lparr>st_graph := fold (\<lambda>l. fold (ensure l) (st_items st l)) ls (st_graph st),
        st_trace := st_trace st @ map AddToGraphRan ls\<rparr>"
  by (induction ls arbitrary: st) (simp_all add: AddToGraph_def)

lemma fold_AddEdges:
  "fold (AddEdges addEdges) es st =
     st\<lparr>st_graph := fold addEdges es (st_graph st),
        st_trace := st_trace st @ map EdgesAdded es\<rparr>"
  by (induction es arbitrary: st) (simp_all add: AddEdges_def)

lemma MakeGraph_closed:
  "MakeGraph new ensure addEdges lister sched =
     (let errs = concat (map (\<lambda>l. case loadError lister l of None \<Rightarrow> [] | Some e \<Rightarrow> [e]) sched);
          F = {k. \<exists>e\<in>set errs. deniedKind e = Some k};
          A = filter (\<lambda>e. \<not> IsForbidden e) errs
      in if A \<noteq> []
           then \<lparr>mg_graph = new, mg_forbiddenResources = F, mg_err = Some (Aggregate A),
                 mg_trace = map LoadReturned sched\<rparr>
           else \<lparr>mg_graph =
                   fold addEdges edgeInferences
                     (fold (\<lambda>l. fold (ensure l) (if l \<in> set sched then stagedItems lister l else []))
                        loaders new),
                 mg_forbiddenResources = F, mg_err = None,
                 mg_trace = map LoadReturned sched @ map AddToGraphRan loaders
                              @ map EdgesAdded edgeInferences\<rparr>)"
proof -
  let ?g = "\<lparr>st_items = (\<lambda>l. []), st_graph = new, st_trace = []\<rparr> :: ('a, 'b) loadState"
  obtain errs st where run: "parallel_Run lister sched ?g = (errs, st)"
    by (cases "parallel_Run lister sched ?g")
  have errs: "errs = concat (map (\<lambda>l. case loadError lister l of None \<Rightarrow> [] | Some e \<Rightarrow> [e]) sched)"
    using parallel_Run_errs [of lister sched ?g] run by simp
  have st: "st_graph st = new" "st_trace st = map LoadReturned sched"
      "st_items st = (\<lambda>l. if l \<in> set sched then stagedItems lister l else [])"
    using parallel_Run_state [of lister sched ?g] run by simp_all
  have cl: "(if length errs > 0 then classifyErrors errs ({}, []) else ({}, []))
      = ({k. \<exists>e\<in>set errs. deniedKind e = Some k}, filter (\<lambda>e. \<not> IsForbidden e) errs)"
    by (simp add: classifyErrors_closed)
  have nonempty: "filter (\<lambda>e. \<not> IsForbidden e) errs \<noteq> [] \<Longrightarrow> length errs > 0"
    by (cases errs) auto
  show ?thesis
    unfolding MakeGraph_def Let_def run prod.case cl errs [symmetric]
    using nonempty
    by (auto simp: NewAggregate_def fold_AddToGraph fold_AddEdges st)
qed

lemma loader_in_loaders: "l \<in> set loaders"
  by (cases l) (simp_all add: loaders_def)

lemma mset_concat_map_cong:
  "mset xs = mset ys \<Longrightarrow> mset (concat (map f xs)) = mset (concat (map f ys))"
proof -
  have "mset (concat (map f zs)) = (\<Sum>z\<in>#mset zs. mset (f z))" for zs
    by (induction zs) auto
  then show "mset xs = mset ys \<Longrightarrow> ?thesis" by simp
qed

lemma mset_eq_Nil_iff: "mset xs = mset ys \<Longrightarrow> xs = [] \<longleftrightarrow> ys = []"
  by (metis mset_zero_iff)

lemma genuine_of_loadError:
  "filter (\<lambda>e. \<not> IsForbidden e) (case loadError lister l of None \<Rightarrow> [] | Some e \<Rightarrow> [e]) =
     (case lister l of
        Inl e \<Rightarrow> if \<not> IsForbidden e \<and> \<not> ((l = bcLoader \<or> l = buildLoader) \<and> IsNotFound e)
                 then [e] else []
      | Inr xs \<Rightarrow> [])"
  by (auto simp: loadError_def TolerateNotFoundError_def split: sum.splits)

lemma genuine_errors_closed:
  "filter (\<lambda>e. \<not> IsForbidden e)
       (concat (map (\<lambda>l. case loadError lister l of None \<Rightarrow> [] | Some e \<Rightarrow> [e]) sched)) =
     concat (map (\<lambda>l. case lister l of
        Inl e \<Rightarrow> if \<not> IsForbidden e \<and> \<not> ((l = bcLoader \<or> l = buildLoader) \<and> IsNotFound e)
                 then [e] else []
      | Inr xs \<Rightarrow> []) sched)"
  by (simp add: filter_concat comp_def genuine_of_loadError)

lemma trace_stages:
  "sorted_wrt (\<lambda>a b. eventStage a \<le> eventStage b)
     (map LoadReturned ls @ map AddToGraphRan as @ map EdgesAdded es)"
  by (auto simp: sorted_wrt_append sorted_wrt_map)


lemma MakeGraph_cases:
  "MakeGraph new ensure addEdges lister sched =
     (if concat (map (\<lambda>l. case lister l of
          Inl e \<Rightarrow> if \<not> IsForbidden e \<and> \<not> ((l = bcLoader \<or> l = buildLoader) \<and> IsNotFound e)
                   then [e] else []
        | Inr xs \<Rightarrow> []) sched) \<noteq> []
      then \<lparr>mg_graph = new,
            mg_forbiddenResources = {k. \<exists>e\<in>set (concat (map (\<lambda>l. case loadError lister l of
                None \<Rightarrow> [] | Some e \<Rightarrow> [e]) sched)). deniedKind e = Some k},
            mg_err = Some (Aggregate (concat (map (\<lambda>l. case lister l of
                Inl e \<Rightarrow> if \<not> IsForbidden e \<and> \<not> ((l = bcLoader \<or> l = buildLoader) \<and> IsNotFound e)
                         then [e] else []
              | Inr xs \<Rightarrow> []) sched))),
            mg_trace = map LoadReturned sched\<rparr>
      else \<lparr>mg_graph = fold addEdges edgeInferences
                (fold (\<lambda>l. fold (ensure l) (if l \<in> set sched then stagedItems lister l else []))
                   loaders new),
            mg_forbiddenResources = {k. \<exists>e\<in>set (concat (map (\<lambda>l. case loadError lister l of
                None \<Rightarrow> [] | Some e \<Rightarrow> [e]) sched)). deniedKind e = Some k},
            mg_err = None,
            mg_trace = map LoadReturned sched @ map AddToGraphRan loaders
                         @ map EdgesAdded edgeInferences\<rparr>)"
  unfolding MakeGraph_closed Let_def genuine_errors_closed ..

text \<open>
  C1.  Whatever the order in which the ten loads finish: when at least one failure is
  genuine (it is not a forbidden error, and it is not a not-found error of one of the two
  build-related loaders), \<^verbatim>\<open>MakeGraph\<close> returns the aggregate of exactly the genuine
  failures, its graph is the fresh one, and neither an \<^verbatim>\<open>AddToGraph\<close> nor an edge
  inference has run; when no failure is genuine it returns no error and the graph that
  holds every loader's staged items and the inferred edges.
\<close>

theorem MakeGraph_genuine_failures:
  assumes "mset sched = mset loaders"
  shows
    "(concat (map (\<lambda>l. case lister l of
          Inl e \<Rightarrow> if \<not> IsForbidden e \<and> \<not> ((l = bcLoader \<or> l = buildLoader) \<and> IsNotFound e)
                   then [e] else []
        | Inr xs \<Rightarrow> []) loaders) \<noteq> [] \<longrightarrow>
        (\<exists>errs. mg_err (MakeGraph new ensure addEdges lister sched) = Some (Aggregate errs)
           \<and> mset errs = mset (concat (map (\<lambda>l. case lister l of
                Inl e \<Rightarrow> if \<not> IsForbidden e \<and> \<not> ((l = bcLoader \<or> l = buildLoader) \<and> IsNotFound e)
                         then [e] else []
              | Inr xs \<Rightarrow> []) loaders)))
        \<and> mg_graph (MakeGraph new ensure addEdges lister sched) = new
        \<and> (\<forall>l. AddToGraphRan l \<notin> set (mg_trace (MakeGraph new ensure addEdges lister sched)))
        \<and> (\<forall>e. EdgesAdded e \<notin> set (mg_trace (MakeGraph new ensure addEdges lister sched))))
     \<and> (concat (map (\<lambda>l. case lister l of
          Inl e \<Rightarrow> if \<not> IsForbidden e \<and> \<not> ((l = bcLoader \<or> l = buildLoader) \<and> IsNotFound e)
                   then [e] else []
        | Inr xs \<Rightarrow> []) loaders) = [] \<longrightarrow>
        mg_err (MakeGraph new ensure addEdges lister sched) = None
        \<and> mg_graph (MakeGraph new ensure addEdges lister sched) =
            fold addEdges edgeInferences
              (fold (\<lambda>l. fold (ensure l) (stagedItems lister l)) loaders new)
        \<and> (\<forall>l. AddToGraphRan l \<in> set (mg_trace (MakeGraph new ensure addEdges lister sched))))"
proof -
  let ?gen = "\<lambda>l. case lister l of
          Inl e \<Rightarrow> if \<not> IsForbidden e \<and> \<not> ((l = bcLoader \<or> l = buildLoader) \<and> IsNotFound e)
                   then [e] else []
        | Inr xs \<Rightarrow> []"
  let ?r = "MakeGraph new ensure addEdges lister sched"
  let ?F = "{k. \<exists>e\<in>set (concat (map (\<lambda>l. case loadError lister l of
                None \<Rightarrow> [] | Some e \<Rightarrow> [e]) sched)). deniedKind e = Some k}"
  have perm: "mset (concat (map ?gen sched)) = mset (concat (map ?gen loaders))"
    using assms by (rule mset_concat_map_cong)
  have all: "l \<in> set sched" for l
    using loader_in_loaders [of l] mset_eq_setD [OF assms] by simp
  have staged: "(\<lambda>l. fold (ensure l) (if l \<in> set sched then stagedItems lister l else []))
      = (\<lambda>l. fold (ensure l) (stagedItems lister l))"
    using all by simp
  show ?thesis
  proof (cases "concat (map ?gen loaders) = []")
    case True
    then have e: "concat (map ?gen sched) = []"
      by (simp only: mset_eq_Nil_iff [OF perm])
    have r: "?r = \<lparr>mg_graph = fold addEdges edgeInferences
                (fold (\<lambda>l. fold (ensure l) (stagedItems lister l)) loaders new),
            mg_forbiddenResources = ?F, mg_err = None,
            mg_trace = map LoadReturned sched @ map AddToGraphRan loaders
                         @ map EdgesAdded edgeInferences\<rparr>"
      unfolding MakeGraph_cases staged using e by (simp only: not_True_eq_False simp_thms if_False)
    have "mg_err ?r = None" by (simp add: r)
    moreover have "mg_graph ?r = fold addEdges edgeInferences
                (fold (\<lambda>l. fold (ensure l) (stagedItems lister l)) loaders new)"
      by (simp add: r)
    moreover have "AddToGraphRan l \<in> set (mg_trace ?r)" for l
      using loader_in_loaders [of l] by (simp add: r)
    ultimately show ?thesis using True by blast
  next
    case False
    then have ne: "concat (map ?gen sched) \<noteq> []"
      by (simp only: mset_eq_Nil_iff [OF perm] not_False_eq_True)
    have r: "?r = \<lparr>mg_graph = new, mg_forbiddenResources = ?F,
            mg_err = Some (Aggregate (concat (map ?gen sched))),
            mg_trace = map LoadReturned sched\<rparr>"
      unfolding MakeGraph_cases by (rule if_P [OF ne])
    have "mg_err ?r = Some (Aggregate (concat (map ?gen sched)))" by (simp add: r)
    with perm have "\<exists>errs. mg_err ?r = Some (Aggregate errs)
        \<and> mset errs = mset (concat (map ?gen loaders))"
      by blast
    moreover have "mg_graph ?r = new" by (simp add: r)
    moreover have "AddToGraphRan l \<notin> set (mg_trace ?r)" for l
      by (auto simp: r)
    moreover have "EdgesAdded e \<notin> set (mg_trace ?r)" for e
      by (auto simp: r)
    ultimately show ?thesis using False by blast
  qed
qed

theorem MakeGraph_genuine_failures_witness:
  "mg_err (MakeGraph ([] :: string list) (\<lambda>l item g. g @ [item]) (\<lambda>e g. g)
      (\<lambda>l. if l = podLoader then Inl (OtherError ''connection refused'')
           else if l = secretLoader
             then Inl (StatusError \<lparr>Status_Reason = StatusReasonForbidden,
                    Status_Details = Some \<lparr>StatusDetails_Kind = ''secrets''\<rparr>\<rparr>)
           else if l = bcLoader
             then Inl (StatusError \<lparr>Status_Reason = StatusReasonNotFound, Status_Details = None\<rparr>)
           else Inr [''item''])
      (rev loaders))
     = Some (Aggregate [OtherError ''connection refused''])
   \<and> mg_graph (MakeGraph ([] :: string list) (\<lambda>l item g. g @ [item]) (\<lambda>e g. g)
      (\<lambda>l. if l = podLoader then Inl (OtherError ''connection refused'')
           else if l = secretLoader
             then Inl (StatusError \<lparr>Status_Reason = StatusReasonForbidden,
                    Status_Details = Some \<lparr>StatusDetails_Kind = ''secrets''\<rparr>\<rparr>)
           else if l = bcLoader
             then Inl (StatusError \<lparr>Status_Reason = StatusReasonNotFound, Status_Details = None\<rparr>)
           else Inr [''item''])
      (rev loaders)) = []
   \<and> mg_err (MakeGraph ([] :: string list) (\<lambda>l item g. g @ [item]) (\<lambda>e g. g)
      (\<lambda>l. if l = secretLoader
             then Inl (StatusError \<lparr>Status_Reason = StatusReasonForbidden,
                    Status_Details = Some \<lparr>StatusDetails_Kind = ''secrets''\<rparr>\<rparr>)
           else if l = bcLoader
             then Inl (StatusError \<lparr>Status_Reason = StatusReasonNotFound, Status_Details = None\<rparr>)
           else Inr [''item''])
      (rev loaders)) = None"
proof -
  have perm: "mset (rev loaders) = mset loaders" by simp
  note fail = MakeGraph_genuine_failures [OF perm, of
      "\<lambda>l. if l = podLoader then Inl (OtherError ''connection refused'')
           else if l = secretLoader
             then Inl (StatusError \<lparr>Status_Reason = StatusReasonForbidden,
                    Status_Details = Some \<lparr>StatusDetails_Kind = ''secrets''\<rparr>\<rparr>)
           else if l = bcLoader
             then Inl (StatusError \<lparr>Status_Reason = StatusReasonNotFound, Status_Details = None\<rparr>)
           else Inr [''item'']"
      "[] :: string list" "\<lambda>l item g. g @ [item]" "\<lambda>e g. g"]
  note ok = MakeGraph_genuine_failures [OF perm, of
      "\<lambda>l. if l = secretLoader
             then Inl (StatusError \<lparr>Status_Reason = StatusReasonForbidden,
                    Status_Details = Some \<lparr>StatusDetails_Kind = ''secrets''\<rparr>\<rparr>)
           else if l = bcLoader
             then Inl (StatusError \<lparr>Status_Reason = StatusReasonNotFound, Status_Details = None\<rparr>)
           else Inr [''item'']"
      "[] :: string list" "\<lambda>l item g. g @ [item]" "\<lambda>e g. g"]
  from fail ok show ?thesis
    by (simp add: loaders_def) 
qed

text \<open>
  C3.  In every run of \<^verbatim>\<open>MakeGraph\<close> the events are ordered by stage: all ten loads have
  returned before the first \<^verbatim>\<open>AddToGraph\<close>, and every \<^verbatim>\<open>AddToGraph\<close> has run before the
  first edge inference; the graph of a successful run is the edge inferences applied to
  the graph that already holds all staged items.
\<close>

theorem MakeGraph_load_then_link:
  assumes "mset sched = mset loaders"
  shows
    "sorted_wrt (\<lambda>a b. eventStage a \<le> eventStage b)
        (mg_trace (MakeGraph new ensure addEdges lister sched))
     \<and> (\<forall>l. LoadReturned l \<in> set (take (length loaders)
                (mg_trace (MakeGraph new ensure addEdges lister sched))))
     \<and> mg_trace (MakeGraph new ensure addEdges lister sched) =
         map LoadReturned sched
         @ (if mg_err (MakeGraph new ensure addEdges lister sched) = None
              then map AddToGraphRan loaders @ map EdgesAdded edgeInferences else [])
     \<and> (mg_err (MakeGraph new ensure addEdges lister sched) = None \<longrightarrow>
          mg_graph (MakeGraph new ensure addEdges lister sched) =
            fold addEdges edgeInferences
              (fold (\<lambda>l. fold (ensure l) (stagedItems lister l)) loaders new))"
proof -
  let ?r = "MakeGraph new ensure addEdges lister sched"
  have all: "l \<in> set sched" for l
    using loader_in_loaders [of l] mset_eq_setD [OF assms] by simp
  have len: "length sched = length loaders"
    using assms by (rule mset_eq_length)
  have staged: "(\<lambda>l. fold (ensure l) (if l \<in> set sched then stagedItems lister l else []))
      = (\<lambda>l. fold (ensure l) (stagedItems lister l))"
    using all by simp
  have tr: "mg_trace ?r = map LoadReturned sched
         @ (if mg_err ?r = None
              then map AddToGraphRan loaders @ map EdgesAdded edgeInferences else [])"
    unfolding MakeGraph_cases by simp
  have g: "mg_err ?r = None \<longrightarrow> mg_graph ?r =
            fold addEdges edgeInferences
              (fold (\<lambda>l. fold (ensure l) (stagedItems lister l)) loaders new)"
    unfolding MakeGraph_cases staged by simp
  have srt: "sorted_wrt (\<lambda>a b. eventStage a \<le> eventStage b) (mg_trace ?r)"
  proof (cases "mg_err ?r = None")
    case True
    with tr have "mg_trace ?r = map LoadReturned sched @ map AddToGraphRan loaders
        @ map EdgesAdded edgeInferences"
      by (simp only: simp_thms if_True)
    then show ?thesis
      by (simp only: trace_stages)
  next
    case False
    with tr have "mg_trace ?r = map LoadReturned sched @ map AddToGraphRan [] @ map EdgesAdded []"
      by (simp only: simp_thms if_False list.map append_Nil2)
    then show ?thesis
      by (simp only: trace_stages)
  qed
  have "take (length loaders) (mg_trace ?r) = map LoadReturned sched"
    by (subst tr) (simp add: len [symmetric])
  then have loads: "\<forall>l. LoadReturned l \<in> set (take (length loaders) (mg_trace ?r))"
    using all by simp
  from srt loads tr g show ?thesis by blast
qed

theorem MakeGraph_load_then_link_witness:
  "mg_trace (MakeGraph ([] :: string list) (\<lambda>l item g. g @ [item]) (\<lambda>e g. g)
      (\<lambda>l. Inr [''item'']) (rev loaders))
     = map LoadReturned (rev loaders) @ map AddToGraphRan loaders @ map EdgesAdded edgeInferences
   \<and> mg_graph (MakeGraph ([] :: string list) (\<lambda>l item g. g @ [item]) (\<lambda>e g. g)
      (\<lambda>l. Inr [''item'']) (rev loaders))
     = replicate 10 ''item''"
proof -
  have perm: "mset (rev loaders) = mset loaders" by simp
  have noerr: "mg_err (MakeGraph ([] :: string list) (\<lambda>l item g. g @ [item]) (\<lambda>e g. g)
      (\<lambda>l. Inr [''item'']) (rev loaders)) = None"
    by (simp add: MakeGraph_cases)
  have graph: "fold (\<lambda>e g. g) edgeInferences
      (fold (\<lambda>l. fold (\<lambda>item g. g @ [item]) (stagedItems (\<lambda>l. Inr [''item'']) l)) loaders [])
      = replicate 10 ''item''"
    by (simp add: edgeInferences_def loaders_def stagedItems_def eval_nat_numeral)
  from MakeGraph_load_then_link [OF perm, of "[] :: string list" "\<lambda>l item g. g @ [item]"
      "\<lambda>e g. g" "\<lambda>l. Inr [''item'']"] noerr graph
  show ?thesis by simp
qed

subsection \<open>Forbidden errors without a kind\<close>

lemma deniedKind_Some:
  "deniedKind e = Some k \<longleftrightarrow>
     k \<noteq> [] \<and> (\<exists>s. e = StatusError s \<and> Status_Reason s = StatusReasonForbidden
                  \<and> Status_Details s = Some \<lparr>StatusDetails_Kind = k\<rparr>)"
proof (cases e)
  case (StatusError s)
  show ?thesis
  proof (cases "Status_Details s")
    case None
    with StatusError show ?thesis by simp
  next
    case (Some d)
    have "d = \<lparr>StatusDetails_Kind = k\<rparr> \<longleftrightarrow> StatusDetails_Kind d = k"
      by (cases d) simp
    with StatusError Some show ?thesis by auto
  qed
qed simp_all

lemma loadError_forbidden:
  "Status_Reason s = StatusReasonForbidden \<Longrightarrow>
     loadError lister l = Some (StatusError s) \<longleftrightarrow> lister l = Inl (StatusError s)"
  by (cases "lister l") (auto simp: loadError_def TolerateNotFoundError_def)


lemma forbiddenResources_closed:
  "{k. \<exists>e\<in>set (concat (map (\<lambda>l. case loadError lister l of None \<Rightarrow> [] | Some e \<Rightarrow> [e]) sched)).
         deniedKind e = Some k} =
     {k. k \<noteq> [] \<and> (\<exists>l\<in>set sched. \<exists>s. lister l = Inl (StatusError s)
            \<and> Status_Reason s = StatusReasonForbidden
            \<and> Status_Details s = Some \<lparr>StatusDetails_Kind = k\<rparr>)}"
proof -
  have opt: "e \<in> set (case x of None \<Rightarrow> [] | Some e' \<Rightarrow> [e']) \<longleftrightarrow> x = Some e" for x and e :: error
    by (cases x) auto
  have mem: "e \<in> set (concat (map (\<lambda>l. case loadError lister l of None \<Rightarrow> [] | Some e \<Rightarrow> [e]) sched))
      \<longleftrightarrow> (\<exists>l\<in>set sched. loadError lister l = Some e)" for e
    by (induction sched) (auto simp: opt)
  have "(\<exists>e. (\<exists>l\<in>set sched. loadError lister l = Some e) \<and> deniedKind e = Some k)
      \<longleftrightarrow> k \<noteq> [] \<and> (\<exists>l\<in>set sched. \<exists>s. lister l = Inl (StatusError s)
            \<and> Status_Reason s = StatusReasonForbidden
            \<and> Status_Details s = Some \<lparr>StatusDetails_Kind = k\<rparr>)" for k
  proof
    assume "\<exists>e. (\<exists>l\<in>set sched. loadError lister l = Some e) \<and> deniedKind e = Some k"
    then obtain e l where l: "l \<in> set sched" and le: "loadError lister l = Some e"
      and dk: "deniedKind e = Some k" by blast
    from dk obtain s where k: "k \<noteq> []" and e: "e = StatusError s"
      and s: "Status_Reason s = StatusReasonForbidden"
      and d: "Status_Details s = Some \<lparr>StatusDetails_Kind = k\<rparr>"
      unfolding deniedKind_Some by blast
    from le e s have "lister l = Inl (StatusError s)"
      by (simp add: loadError_forbidden)
    with l k s d show "k \<noteq> [] \<and> (\<exists>l\<in>set sched. \<exists>s. lister l = Inl (StatusError s)
            \<and> Status_Reason s = StatusReasonForbidden
            \<and> Status_Details s = Some \<lparr>StatusDetails_Kind = k\<rparr>)" by blast
  next
    assume "k \<noteq> [] \<and> (\<exists>l\<in>set sched. \<exists>s. lister l = Inl (StatusError s)
            \<and> Status_Reason s = StatusReasonForbidden
            \<and> Status_Details s = Some \<lparr>StatusDetails_Kind = k\<rparr>)"
    then obtain l s where k: "k \<noteq> []" and l: "l \<in> set sched"
      and ll: "lister l = Inl (StatusError s)"
      and s: "Status_Reason s = StatusReasonForbidden"
      and d: "Status_Details s = Some \<lparr>StatusDetails_Kind = k\<rparr>" by blast
    from ll s have "loadError lister l = Some (StatusError s)"
      by (simp add: loadError_forbidden)
    moreover from k s d have "deniedKind (StatusError s) = Some k"
      unfolding deniedKind_Some by blast
    ultimately show "\<exists>e. (\<exists>l\<in>set sched. loadError lister l = Some e) \<and> deniedKind e = Some k"
      using l by blast
  qed
  then show ?thesis
    unfolding mem Bex_def by (intro Collect_cong) simp
qed


lemma MakeGraph_cases2:
  "MakeGraph new ensure addEdges lister sched =
     (if concat (map (\<lambda>l. case lister l of
          Inl e \<Rightarrow> if \<not> IsForbidden e \<and> \<not> ((l = bcLoader \<or> l = buildLoader) \<and> IsNotFound e)
                   then [e] else []
        | Inr xs \<Rightarrow> []) sched) \<noteq> []
      then \<lparr>mg_graph = new,
            mg_forbiddenResources = {k. k \<noteq> [] \<and> (\<exists>l\<in>set sched. \<exists>s. lister l = Inl (StatusError s)
              \<and> Status_Reason s = StatusReasonForbidden
              \<and> Status_Details s = Some \<lparr>StatusDetails_Kind = k\<rparr>)},
            mg_err = Some (Aggregate (concat (map (\<lambda>l. case lister l of
                Inl e \<Rightarrow> if \<not> IsForbidden e \<and> \<not> ((l = bcLoader \<or> l = buildLoader) \<and> IsNotFound e)
                         then [e] else []
              | Inr xs \<Rightarrow> []) sched))),
            mg_trace = map LoadReturned sched\<rparr>
      else \<lparr>mg_graph = fold addEdges edgeInferences
                (fold (\<lambda>l. fold (ensure l) (if l \<in> set sched then stagedItems lister l else []))
                   loaders new),
            mg_forbiddenResources = {k. k \<noteq> [] \<and> (\<exists>l\<in>set sched. \<exists>s. lister l = Inl (StatusError s)
              \<and> Status_Reason s = StatusReasonForbidden
              \<and> Status_Details s = Some \<lparr>StatusDetails_Kind = k\<rparr>)},
            mg_err = None,
            mg_trace = map LoadReturned sched @ map AddToGraphRan loaders
                         @ map EdgesAdded edgeInferences\<rparr>)"
  unfolding MakeGraph_cases forbiddenResources_closed ..

lemma MakeGraph_forbiddenResources:
  "mg_forbiddenResources (MakeGraph new ensure addEdges lister sched) =
     {k. k \<noteq> [] \<and> (\<exists>l\<in>set sched. \<exists>s. lister l = Inl (StatusError s)
            \<and> Status_Reason s = StatusReasonForbidden
            \<and> Status_Details s = Some \<lparr>StatusDetails_Kind = k\<rparr>)}"
  by (subst MakeGraph_cases2) (simp only: if_distrib [of mg_forbiddenResources] makeGraphResult.simps if_cancel)

text \<open>
  C9.  A forbidden load error whose status has no details, or details with an empty kind,
  leaves no trace: \<^verbatim>\<open>MakeGraph\<close> returns exactly what it returns when that loader had
  answered with an empty list.  The forbidden set holds just the non-empty kinds of the
  forbidden errors that carry details.  When every failure is of this silent sort, no error
  is returned, the forbidden set is empty, and \<^verbatim>\<open>createForbiddenMarkers\<close> produces no
  marker, whatever the order in which the set is traversed.
\<close>

theorem MakeGraph_kindless_forbidden_dropped:
  "(lister l = Inl (StatusError s) \<and> Status_Reason s = StatusReasonForbidden
      \<and> (Status_Details s = None \<or> Status_Details s = Some \<lparr>StatusDetails_Kind = []\<rparr>) \<longrightarrow>
        MakeGraph new ensure addEdges lister sched
          = MakeGraph new ensure addEdges (lister(l := Inr [])) sched)
   \<and> mg_forbiddenResources (MakeGraph new ensure addEdges lister sched) =
       {k. k \<noteq> [] \<and> (\<exists>l\<in>set sched. \<exists>s. lister l = Inl (StatusError s)
              \<and> Status_Reason s = StatusReasonForbidden
              \<and> Status_Details s = Some \<lparr>StatusDetails_Kind = k\<rparr>)}
   \<and> ((\<forall>l e. lister l = Inl e \<longrightarrow>
          (\<exists>s. e = StatusError s \<and> Status_Reason s = StatusReasonForbidden
             \<and> (Status_Details s = None \<or> Status_Details s = Some \<lparr>StatusDetails_Kind = []\<rparr>))) \<longrightarrow>
        mg_err (MakeGraph new ensure addEdges lister sched) = None
        \<and> mg_forbiddenResources (MakeGraph new ensure addEdges lister sched) = {}
        \<and> (\<forall>ks. set ks = mg_forbiddenResources (MakeGraph new ensure addEdges lister sched) \<longrightarrow>
              createForbiddenMarkers ks = []))"
proof -
  let ?r = "MakeGraph new ensure addEdges lister sched"
  let ?gen = "\<lambda>lister l. case lister l of
          Inl e \<Rightarrow> if \<not> IsForbidden e \<and> \<not> ((l = bcLoader \<or> l = buildLoader) \<and> IsNotFound e)
                   then [e] else []
        | Inr xs \<Rightarrow> []"
  have drop: "?r = MakeGraph new ensure addEdges (lister(l := Inr [])) sched"
    if l: "lister l = Inl (StatusError s)" and s: "Status_Reason s = StatusReasonForbidden"
      and d: "Status_Details s = None \<or> Status_Details s = Some \<lparr>StatusDetails_Kind = []\<rparr>"
  proof -
    have "?gen (lister(l := Inr [])) l' = ?gen lister l'" for l'
      using l s by (cases "l' = l") simp_all
    then have gen: "?gen (lister(l := Inr [])) = ?gen lister"
      by (rule ext)
    have "stagedItems (lister(l := Inr [])) l' = stagedItems lister l'" for l'
      using l by (cases "l' = l") (simp_all add: stagedItems_def)
    then have staged: "stagedItems (lister(l := Inr [])) = stagedItems lister"
      by (rule ext)
    have pt: "(\<exists>s. (lister(l := Inr [])) l' = Inl (StatusError s)
              \<and> Status_Reason s = StatusReasonForbidden
              \<and> Status_Details s = Some \<lparr>StatusDetails_Kind = k\<rparr>)
          \<longleftrightarrow> (\<exists>s. lister l' = Inl (StatusError s)
              \<and> Status_Reason s = StatusReasonForbidden
              \<and> Status_Details s = Some \<lparr>StatusDetails_Kind = k\<rparr>)" if "k \<noteq> []" for l' k
    proof (cases "l' = l")
      case True
      with l d that show ?thesis by auto
    next
      case False
      then show ?thesis by simp
    qed
    have F: "{k. k \<noteq> [] \<and> (\<exists>l'\<in>set sched. \<exists>s. (lister(l := Inr [])) l' = Inl (StatusError s)
              \<and> Status_Reason s = StatusReasonForbidden
              \<and> Status_Details s = Some \<lparr>StatusDetails_Kind = k\<rparr>)}
        = {k. k \<noteq> [] \<and> (\<exists>l'\<in>set sched. \<exists>s. lister l' = Inl (StatusError s)
              \<and> Status_Reason s = StatusReasonForbidden
              \<and> Status_Details s = Some \<lparr>StatusDetails_Kind = k\<rparr>)}"
      by (intro Collect_cong conj_cong refl bex_cong) (rule pt)
    show ?thesis
      unfolding MakeGraph_cases2 gen staged F ..
  qed
  have F: "mg_forbiddenResources ?r =
       {k. k \<noteq> [] \<and> (\<exists>l\<in>set sched. \<exists>s. lister l = Inl (StatusError s)
              \<and> Status_Reason s = StatusReasonForbidden
              \<and> Status_Details s = Some \<lparr>StatusDetails_Kind = k\<rparr>)}"
    by (rule MakeGraph_forbiddenResources)
  have only: "mg_err ?r = None \<and> mg_forbiddenResources ?r = {}
        \<and> (\<forall>ks. set ks = mg_forbiddenResources ?r \<longrightarrow> createForbiddenMarkers ks = [])"
    if all: "\<forall>l e. lister l = Inl e \<longrightarrow>
          (\<exists>s. e = StatusError s \<and> Status_Reason s = StatusReasonForbidden
             \<and> (Status_Details s = None \<or> Status_Details s = Some \<lparr>StatusDetails_Kind = []\<rparr>))"
  proof -
    have "?gen lister l = []" for l
    proof (cases "lister l")
      case (Inl e)
      with all obtain s where "e = StatusError s" "Status_Reason s = StatusReasonForbidden"
        by blast
      with Inl show ?thesis by simp
    next
      case (Inr xs)
      then show ?thesis by simp
    qed
    then have nogen: "concat (map (?gen lister) sched) = []"
      by simp
    have err: "mg_err ?r = None"
      by (subst MakeGraph_cases2) (simp only: nogen simp_thms if_False makeGraphResult.simps)
    have "k \<notin> mg_forbiddenResources ?r" for k
    proof
      assume "k \<in> mg_forbiddenResources ?r"
      then obtain l s where k: "k \<noteq> []" and "lister l = Inl (StatusError s)"
        and "Status_Details s = Some \<lparr>StatusDetails_Kind = k\<rparr>"
        unfolding F by blast
      with all have "Status_Details s = None \<or> Status_Details s = Some \<lparr>StatusDetails_Kind = []\<rparr>"
        by blast
      with \<open>Status_Details s = Some \<lparr>StatusDetails_Kind = k\<rparr>\<close> k show False by simp
    qed
    then have empty: "mg_forbiddenResources ?r = {}" by blast
    then have "\<forall>ks. set ks = mg_forbiddenResources ?r \<longrightarrow> createForbiddenMarkers ks = []"
      by (simp add: createForbiddenMarkers_def)
    with err empty show ?thesis by blast
  qed
  from drop F only show ?thesis by blast
qed


theorem MakeGraph_kindless_forbidden_dropped_witness:
  "MakeGraph ([] :: string list) (\<lambda>l item g. g @ [item]) (\<lambda>e g. g)
      (\<lambda>l. if l = secretLoader
             then Inl (StatusError \<lparr>Status_Reason = StatusReasonForbidden, Status_Details = None\<rparr>)
           else Inr [''item'']) loaders
     = MakeGraph ([] :: string list) (\<lambda>l item g. g @ [item]) (\<lambda>e g. g)
        ((\<lambda>l. if l = secretLoader
             then Inl (StatusError \<lparr>Status_Reason = StatusReasonForbidden, Status_Details = None\<rparr>)
           else Inr [''item''])(secretLoader := Inr [])) loaders
   \<and> mg_err (MakeGraph ([] :: string list) (\<lambda>l item g. g @ [item]) (\<lambda>e g. g)
      (\<lambda>l. if l = secretLoader
             then Inl (StatusError \<lparr>Status_Reason = StatusReasonForbidden, Status_Details = None\<rparr>)
           else Inr [''item'']) loaders) = None
   \<and> mg_forbiddenResources (MakeGraph ([] :: string list) (\<lambda>l item g. g @ [item]) (\<lambda>e g. g)
      (\<lambda>l. if l = secretLoader
             then Inl (StatusError \<lparr>Status_Reason = StatusReasonForbidden, Status_Details = None\<rparr>)
           else Inr [''item'']) loaders) = {}
   \<and> createForbiddenMarkers [] = []"
proof -
  note inst = MakeGraph_kindless_forbidden_dropped [of
      "\<lambda>l. if l = secretLoader
             then Inl (StatusError \<lparr>Status_Reason = StatusReasonForbidden, Status_Details = None\<rparr>)
           else Inr [''item'']"
      secretLoader "\<lparr>Status_Reason = StatusReasonForbidden, Status_Details = None\<rparr>"
      "[] :: string list" "\<lambda>l item g. g @ [item]" "\<lambda>e g. g" loaders]
  have hyp: "\<forall>l e. (if l = secretLoader
             then Inl (StatusError \<lparr>Status_Reason = StatusReasonForbidden, Status_Details = None\<rparr>)
           else (Inr [''item''] :: error + string list)) = Inl e \<longrightarrow>
          (\<exists>s. e = StatusError s \<and> Status_Reason s = StatusReasonForbidden
             \<and> (Status_Details s = None \<or> Status_Details s = Some \<lparr>StatusDetails_Kind = []\<rparr>))"
    by (simp split: if_splits)
  have one: "(if secretLoader = secretLoader
             then Inl (StatusError \<lparr>Status_Reason = StatusReasonForbidden, Status_Details = None\<rparr>)
           else (Inr [''item''] :: error + string list))
        = Inl (StatusError \<lparr>Status_Reason = StatusReasonForbidden, Status_Details = None\<rparr>)
      \<and> Status_Reason \<lparr>Status_Reason = StatusReasonForbidden, Status_Details = None\<rparr>
          = StatusReasonForbidden
      \<and> (Status_Details \<lparr>Status_Reason = StatusReasonForbidden, Status_Details = None\<rparr> = None
         \<or> Status_Details \<lparr>Status_Reason = StatusReasonForbidden, Status_Details = None\<rparr>
             = Some \<lparr>StatusDetails_Kind = []\<rparr>)"
    by simp
  note same = inst [THEN conjunct1, THEN mp, OF one]
  note none = inst [THEN conjunct2, THEN conjunct2, THEN mp, OF hyp]
  have no_markers: "createForbiddenMarkers [] = []"
    by (simp add: createForbiddenMarkers_def)
  from same none no_markers show ?thesis
    by blast
qed

subsection \<open>Coverage passes\<close>

lemma Describe_cover_closed:
  "Describe_cover allSvc allDCs allRCs allImgs allPods g =
     (let S = snd (allSvc g {});
          D = snd (allDCs g S);
          R = snd (allRCs g (S \<union> D));
          I = snd (allImgs g (S \<union> D \<union> R));
          P = snd (allPods g (S \<union> D \<union> R \<union> I))
      in \<lparr>cov_services = fst (allSvc g {}),
          cov_standaloneDCs = fst (allDCs g S),
          cov_standaloneRCs = fst (allRCs g (S \<union> D)),
          cov_standaloneImages = fst (allImgs g (S \<union> D \<union> R)),
          cov_standalonePods = fst (allPods g (S \<union> D \<union> R \<union> I)),
          cov_coveredNodes = S \<union> D \<union> R \<union> I \<union> P,
          cov_passCalls = [(AllServiceGroups, {}), (AllDeploymentConfigPipelines, S),
            (AllReplicationControllers, S \<union> D),
            (AllImagePipelinesFromBuildConfig, S \<union> D \<union> R),
            (AllPods, S \<union> D \<union> R \<union> I)],
          cov_coveredHistory = [{}, S, S \<union> D, S \<union> D \<union> R, S \<union> D \<union> R \<union> I,
            S \<union> D \<union> R \<union> I \<union> P]\<rparr>)"
  by (simp add: Describe_cover_def Let_def case_prod_beta)

text \<open>
  C2.  During one \<^verbatim>\<open>Describe\<close> the five passes are called in the order service groups,
  deployment-config pipelines, replication controllers, image pipelines from build
  configs, pods; every pass receives the union of the node sets that the earlier passes
  returned (the first receives the empty set), and the successive values of the covered
  set form an ascending chain that ends in the union of all five.
\<close>

theorem Describe_cover_monotone:
  "(let S = snd (allSvc g {});
        D = snd (allDCs g S);
        R = snd (allRCs g (S \<union> D));
        I = snd (allImgs g (S \<union> D \<union> R));
        P = snd (allPods g (S \<union> D \<union> R \<union> I));
        r = Describe_cover allSvc allDCs allRCs allImgs allPods g
    in cov_passCalls r =
         [(AllServiceGroups, {}), (AllDeploymentConfigPipelines, S),
          (AllReplicationControllers, S \<union> D),
          (AllImagePipelinesFromBuildConfig, S \<union> D \<union> R),
          (AllPods, S \<union> D \<union> R \<union> I)]
       \<and> cov_coveredHistory r = [{}, S, S \<union> D, S \<union> D \<union> R, S \<union> D \<union> R \<union> I, S \<union> D \<union> R \<union> I \<union> P]
       \<and> sorted_wrt (\<subseteq>) (cov_coveredHistory r)
       \<and> cov_coveredNodes r = S \<union> D \<union> R \<union> I \<union> P
       \<and> cov_services r = fst (allSvc g {})
       \<and> cov_standaloneDCs r = fst (allDCs g S)
       \<and> cov_standaloneRCs r = fst (allRCs g (S \<union> D))
       \<and> cov_standaloneImages r = fst (allImgs g (S \<union> D \<union> R))
       \<and> cov_standalonePods r = fst (allPods g (S \<union> D \<union> R \<union> I)))"
  unfolding Describe_cover_closed Let_def by auto

subsection \<open>Boring pods\<close>

lemma filterBoringPods_loop_filter:
  "filterBoringPods_loop dl ba monopods pods =
     Inr (monopods @ filter (\<lambda>pod.
        ObjectMeta_Labels (Pod_ObjectMeta (PodNode_Pod pod)) dl = None
        \<and> ObjectMeta_Annotations (Pod_ObjectMeta (PodNode_Pod pod)) ba = None
        \<and> Pod_Phase (PodNode_Pod pod) \<noteq> ''Succeeded''
        \<and> Pod_Phase (PodNode_Pod pod) \<noteq> ''Failed'') pods)"
  by (induction pods arbitrary: monopods)
    (simp_all add: PodNode_Object_def ObjectMetaFor_def PodSucceeded_def PodFailed_def)

text \<open>
  C7.  \<^verbatim>\<open>filterBoringPods\<close> never fails and returns, in their original order, exactly the
  pods that have no deployer-pod-for label, no build annotation and a phase other than
  \<^verbatim>\<open>Succeeded\<close> and \<^verbatim>\<open>Failed\<close>.  In \<^verbatim>\<open>Describe\<close> it is applied to the pods of the last
  pass after the covered set is complete.  When the pod pass covers the node of every pod
  it returns, the node ID of every standalone pod is in the covered set of \<^verbatim>\<open>Describe\<close>,
  and a pod that is a deployer pod, a builder pod or finished is in the covered set and
  not in the list of pods that are printed.
\<close>

theorem filterBoringPods_keeps_interesting:
  "filterBoringPods dl ba pods =
     Inr (filter (\<lambda>pod.
        ObjectMeta_Labels (Pod_ObjectMeta (PodNode_Pod pod)) dl = None
        \<and> ObjectMeta_Annotations (Pod_ObjectMeta (PodNode_Pod pod)) ba = None
        \<and> Pod_Phase (PodNode_Pod pod) \<noteq> ''Succeeded''
        \<and> Pod_Phase (PodNode_Pod pod) \<noteq> ''Failed'') pods)
   \<and> filterBoringPods dl ba
        (cov_standalonePods (Describe_cover allSvc allDCs allRCs allImgs allPods g)) =
     Inr (filter (\<lambda>pod.
        ObjectMeta_Labels (Pod_ObjectMeta (PodNode_Pod pod)) dl = None
        \<and> ObjectMeta_Annotations (Pod_ObjectMeta (PodNode_Pod pod)) ba = None
        \<and> Pod_Phase (PodNode_Pod pod) \<noteq> ''Succeeded''
        \<and> Pod_Phase (PodNode_Pod pod) \<noteq> ''Failed'')
        (fst (allPods g
           (cov_coveredHistory (Describe_cover allSvc allDCs allRCs allImgs allPods g) ! 4))))
   \<and> ((\<forall>p\<in>set (fst (allPods g
            (cov_coveredHistory (Describe_cover allSvc allDCs allRCs allImgs allPods g) ! 4))).
          PodNode_ID p \<in> snd (allPods g
            (cov_coveredHistory (Describe_cover allSvc allDCs allRCs allImgs allPods g) ! 4)))
        \<longrightarrow>
        (\<forall>p\<in>set (cov_standalonePods (Describe_cover allSvc allDCs allRCs allImgs allPods g)).
           PodNode_ID p \<in> cov_coveredNodes (Describe_cover allSvc allDCs allRCs allImgs allPods g)
           \<and> ((ObjectMeta_Labels (Pod_ObjectMeta (PodNode_Pod p)) dl \<noteq> None
                \<or> ObjectMeta_Annotations (Pod_ObjectMeta (PodNode_Pod p)) ba \<noteq> None
                \<or> Pod_Phase (PodNode_Pod p) = ''Succeeded''
                \<or> Pod_Phase (PodNode_Pod p) = ''Failed'') \<longrightarrow>
               (\<forall>monopods. filterBoringPods dl ba
                    (cov_standalonePods (Describe_cover allSvc allDCs allRCs allImgs allPods g))
                  = Inr monopods \<longrightarrow> p \<notin> set monopods))))"
proof -
  let ?r = "Describe_cover allSvc allDCs allRCs allImgs allPods g"
  let ?keep = "\<lambda>pod.
        ObjectMeta_Labels (Pod_ObjectMeta (PodNode_Pod pod)) dl = None
        \<and> ObjectMeta_Annotations (Pod_ObjectMeta (PodNode_Pod pod)) ba = None
        \<and> Pod_Phase (PodNode_Pod pod) \<noteq> ''Succeeded''
        \<and> Pod_Phase (PodNode_Pod pod) \<noteq> ''Failed''"
  let ?X = "cov_coveredHistory ?r ! 4"
  have flt: "filterBoringPods dl ba ps = Inr (filter ?keep ps)" for ps
    by (simp add: filterBoringPods_def filterBoringPods_loop_filter)
  have pods: "cov_standalonePods ?r = fst (allPods g ?X)"
    by (simp add: Describe_cover_closed Let_def)
  have cov: "snd (allPods g ?X) \<subseteq> cov_coveredNodes ?r"
    by (simp add: Describe_cover_closed Let_def)
  have second: "filterBoringPods dl ba (cov_standalonePods ?r)
      = Inr (filter ?keep (fst (allPods g ?X)))"
    by (simp only: flt pods)
  have third: "PodNode_ID p \<in> cov_coveredNodes ?r
      \<and> ((ObjectMeta_Labels (Pod_ObjectMeta (PodNode_Pod p)) dl \<noteq> None
                \<or> ObjectMeta_Annotations (Pod_ObjectMeta (PodNode_Pod p)) ba \<noteq> None
                \<or> Pod_Phase (PodNode_Pod p) = ''Succeeded''
                \<or> Pod_Phase (PodNode_Pod p) = ''Failed'') \<longrightarrow>
           (\<forall>monopods. filterBoringPods dl ba (cov_standalonePods ?r) = Inr monopods
              \<longrightarrow> p \<notin> set monopods))"
    if H: "\<forall>p\<in>set (fst (allPods g ?X)). PodNode_ID p \<in> snd (allPods g ?X)"
      and p: "p \<in> set (cov_standalonePods ?r)" for p
  proof
    from p have "p \<in> set (fst (allPods g ?X))" by (simp only: pods)
    with H have "PodNode_ID p \<in> snd (allPods g ?X)" by blast
    with cov show "PodNode_ID p \<in> cov_coveredNodes ?r" by blast
  next
    show "(ObjectMeta_Labels (Pod_ObjectMeta (PodNode_Pod p)) dl \<noteq> None
                \<or> ObjectMeta_Annotations (Pod_ObjectMeta (PodNode_Pod p)) ba \<noteq> None
                \<or> Pod_Phase (PodNode_Pod p) = ''Succeeded''
                \<or> Pod_Phase (PodNode_Pod p) = ''Failed'') \<longrightarrow>
           (\<forall>monopods. filterBoringPods dl ba (cov_standalonePods ?r) = Inr monopods
              \<longrightarrow> p \<notin> set monopods)"
      unfolding flt by auto
  qed
  from flt [of pods] second third show ?thesis by blast
qed

theorem filterBoringPods_keeps_interesting_witness:
  "PodNode_ID \<lparr>PodNode_ID = 5,
              PodNode_Pod = \<lparr>Pod_ObjectMeta = \<lparr>ObjectMeta_Labels = Map.empty,
                              ObjectMeta_Annotations = Map.empty\<rparr>,
                             Pod_Phase = ''Succeeded''\<rparr>\<rparr>
     \<in> cov_coveredNodes
        (Describe_cover (\<lambda>g c. ([] :: unit list, {})) (\<lambda>g c. ([] :: unit list, {}))
           (\<lambda>g c. ([] :: unit list, {})) (\<lambda>g c. ([] :: unit list, {}))
           (\<lambda>g c. ([\<lparr>PodNode_ID = 5,
                    PodNode_Pod = \<lparr>Pod_ObjectMeta = \<lparr>ObjectMeta_Labels = Map.empty,
                                    ObjectMeta_Annotations = Map.empty\<rparr>,
                                   Pod_Phase = ''Succeeded''\<rparr>\<rparr>,
                  \<lparr>PodNode_ID = 6,
                   PodNode_Pod = \<lparr>Pod_ObjectMeta = \<lparr>ObjectMeta_Labels = Map.empty,
                                   ObjectMeta_Annotations = Map.empty\<rparr>,
                                  Pod_Phase = ''Running''\<rparr>\<rparr>],
                 {5, 6})) ())
   \<and> filterBoringPods ''openshift.io/deployer-pod-for.name'' ''openshift.io/build.name''
       (cov_standalonePods
        (Describe_cover (\<lambda>g c. ([] :: unit list, {})) (\<lambda>g c. ([] :: unit list, {}))
           (\<lambda>g c. ([] :: unit list, {})) (\<lambda>g c. ([] :: unit list, {}))
           (\<lambda>g c. ([\<lparr>PodNode_ID = 5,
                    PodNode_Pod = \<lparr>Pod_ObjectMeta = \<lparr>ObjectMeta_Labels = Map.empty,
                                    ObjectMeta_Annotations = Map.empty\<rparr>,
                                   Pod_Phase = ''Succeeded''\<rparr>\<rparr>,
                  \<lparr>PodNode_ID = 6,
                   PodNode_Pod = \<lparr>Pod_ObjectMeta = \<lparr>ObjectMeta_Labels = Map.empty,
                                   ObjectMeta_Annotations = Map.empty\<rparr>,
                                  Pod_Phase = ''Running''\<rparr>\<rparr>],
                 {5, 6})) ()))
     = Inr [\<lparr>PodNode_ID = 6,
             PodNode_Pod = \<lparr>Pod_ObjectMeta = \<lparr>ObjectMeta_Labels = Map.empty,
                             ObjectMeta_Annotations = Map.empty\<rparr>,
                            Pod_Phase = ''Running''\<rparr>\<rparr>]"
proof -
  note inst = filterBoringPods_keeps_interesting [of
      "''openshift.io/deployer-pod-for.name''" "''openshift.io/build.name''" "[]"
      "(\<lambda>g c. ([] :: unit list, {}))" "(\<lambda>g c. ([] :: unit list, {}))"
      "(\<lambda>g c. ([] :: unit list, {}))" "(\<lambda>g c. ([] :: unit list, {}))"
      "(\<lambda>g c. ([\<lparr>PodNode_ID = 5,
               PodNode_Pod = \<lparr>Pod_ObjectMeta = \<lparr>ObjectMeta_Labels = Map.empty,
                               ObjectMeta_Annotations = Map.empty\<rparr>,
                              Pod_Phase = ''Succeeded''\<rparr>\<rparr>,
             \<lparr>PodNode_ID = 6,
              PodNode_Pod = \<lparr>Pod_ObjectMeta = \<lparr>ObjectMeta_Labels = Map.empty,
                              ObjectMeta_Annotations = Map.empty\<rparr>,
                             Pod_Phase = ''Running''\<rparr>\<rparr>],
            {5, 6}))" "()"]
  have pods: "cov_standalonePods
        (Describe_cover (\<lambda>g c. ([] :: unit list, {})) (\<lambda>g c. ([] :: unit list, {}))
           (\<lambda>g c. ([] :: unit list, {})) (\<lambda>g c. ([] :: unit list, {}))
           (\<lambda>g c. ([\<lparr>PodNode_ID = 5,
                    PodNode_Pod = \<lparr>Pod_ObjectMeta = \<lparr>ObjectMeta_Labels = Map.empty,
                                    ObjectMeta_Annotations = Map.empty\<rparr>,
                                   Pod_Phase = ''Succeeded''\<rparr>\<rparr>,
                  \<lparr>PodNode_ID = 6,
                   PodNode_Pod = \<lparr>Pod_ObjectMeta = \<lparr>ObjectMeta_Labels = Map.empty,
                                   ObjectMeta_Annotations = Map.empty\<rparr>,
                                  Pod_Phase = ''Running''\<rparr>\<rparr>],
                 {5, 6})) ())
      = [\<lparr>PodNode_ID = 5,
          PodNode_Pod = \<lparr>Pod_ObjectMeta = \<lparr>ObjectMeta_Labels = Map.empty,
                          ObjectMeta_Annotations = Map.empty\<rparr>,
                         Pod_Phase = ''Succeeded''\<rparr>\<rparr>,
         \<lparr>PodNode_ID = 6,
          PodNode_Pod = \<lparr>Pod_ObjectMeta = \<lparr>ObjectMeta_Labels = Map.empty,
                          ObjectMeta_Annotations = Map.empty\<rparr>,
                         Pod_Phase = ''Running''\<rparr>\<rparr>]"
    by (simp add: Describe_cover_closed Let_def)
  have H: "\<forall>p\<in>set (fst ([\<lparr>PodNode_ID = 5,
          PodNode_Pod = \<lparr>Pod_ObjectMeta = \<lparr>ObjectMeta_Labels = Map.empty,
                          ObjectMeta_Annotations = Map.empty\<rparr>,
                         Pod_Phase = ''Succeeded''\<rparr>\<rparr>,
         \<lparr>PodNode_ID = 6,
          PodNode_Pod = \<lparr>Pod_ObjectMeta = \<lparr>ObjectMeta_Labels = Map.empty,
                          ObjectMeta_Annotations = Map.empty\<rparr>,
                         Pod_Phase = ''Running''\<rparr>\<rparr>], {5, 6 :: int})).
      PodNode_ID p \<in> snd ([\<lparr>PodNode_ID = 5,
          PodNode_Pod = \<lparr>Pod_ObjectMeta = \<lparr>ObjectMeta_Labels = Map.empty,
                          ObjectMeta_Annotations = Map.empty\<rparr>,
                         Pod_Phase = ''Succeeded''\<rparr>\<rparr>,
         \<lparr>PodNode_ID = 6,
          PodNode_Pod = \<lparr>Pod_ObjectMeta = \<lparr>ObjectMeta_Labels = Map.empty,
                          ObjectMeta_Annotations = Map.empty\<rparr>,
                         Pod_Phase = ''Running''\<rparr>\<rparr>], {5, 6 :: int})"
    by simp
  note covered = inst [THEN conjunct2, THEN conjunct2, THEN mp, OF H]
  have "\<lparr>PodNode_ID = 5,
         PodNode_Pod = \<lparr>Pod_ObjectMeta = \<lparr>ObjectMeta_Labels = Map.empty,
                         ObjectMeta_Annotations = Map.empty\<rparr>,
                        Pod_Phase = ''Succeeded''\<rparr>\<rparr>
      \<in> set (cov_standalonePods
        (Describe_cover (\<lambda>g c. ([] :: unit list, {})) (\<lambda>g c. ([] :: unit list, {}))
           (\<lambda>g c. ([] :: unit list, {})) (\<lambda>g c. ([] :: unit list, {}))
           (\<lambda>g c. ([\<lparr>PodNode_ID = 5,
                    PodNode_Pod = \<lparr>Pod_ObjectMeta = \<lparr>ObjectMeta_Labels = Map.empty,
                                    ObjectMeta_Annotations = Map.empty\<rparr>,
                                   Pod_Phase = ''Succeeded''\<rparr>\<rparr>,
                  \<lparr>PodNode_ID = 6,
                   PodNode_Pod = \<lparr>Pod_ObjectMeta = \<lparr>ObjectMeta_Labels = Map.empty,
                                   ObjectMeta_Annotations = Map.empty\<rparr>,
                                  Pod_Phase = ''Running''\<rparr>\<rparr>],
                 {5, 6})) ()))"
    by (simp only: pods) simp
  with covered have one: "PodNode_ID \<lparr>PodNode_ID = 5,
              PodNode_Pod = \<lparr>Pod_ObjectMeta = \<lparr>ObjectMeta_Labels = Map.empty,
                              ObjectMeta_Annotations = Map.empty\<rparr>,
                             Pod_Phase = ''Succeeded''\<rparr>\<rparr>
     \<in> cov_coveredNodes
        (Describe_cover (\<lambda>g c. ([] :: unit list, {})) (\<lambda>g c. ([] :: unit list, {}))
           (\<lambda>g c. ([] :: unit list, {})) (\<lambda>g c. ([] :: unit list, {}))
           (\<lambda>g c. ([\<lparr>PodNode_ID = 5,
                    PodNode_Pod = \<lparr>Pod_ObjectMeta = \<lparr>ObjectMeta_Labels = Map.empty,
                                    ObjectMeta_Annotations = Map.empty\<rparr>,
                                   Pod_Phase = ''Succeeded''\<rparr>\<rparr>,
                  \<lparr>PodNode_ID = 6,
                   PodNode_Pod = \<lparr>Pod_ObjectMeta = \<lparr>ObjectMeta_Labels = Map.empty,
                                   ObjectMeta_Annotations = Map.empty\<rparr>,
                                  Pod_Phase = ''Running''\<rparr>\<rparr>],
                 {5, 6})) ())"
    by blast
  have two: "filterBoringPods ''openshift.io/deployer-pod-for.name'' ''openshift.io/build.name''
       (cov_standalonePods
        (Describe_cover (\<lambda>g c. ([] :: unit list, {})) (\<lambda>g c. ([] :: unit list, {}))
           (\<lambda>g c. ([] :: unit list, {})) (\<lambda>g c. ([] :: unit list, {}))
           (\<lambda>g c. ([\<lparr>PodNode_ID = 5,
                    PodNode_Pod = \<lparr>Pod_ObjectMeta = \<lparr>ObjectMeta_Labels = Map.empty,
                                    ObjectMeta_Annotations = Map.empty\<rparr>,
                                   Pod_Phase = ''Succeeded''\<rparr>\<rparr>,
                  \<lparr>PodNode_ID = 6,
                   PodNode_Pod = \<lparr>Pod_ObjectMeta = \<lparr>ObjectMeta_Labels = Map.empty,
                                   ObjectMeta_Annotations = Map.empty\<rparr>,
                                  Pod_Phase = ''Running''\<rparr>\<rparr>],
                 {5, 6})) ()))
     = Inr [\<lparr>PodNode_ID = 6,
             PodNode_Pod = \<lparr>Pod_ObjectMeta = \<lparr>ObjectMeta_Labels = Map.empty,
                             ObjectMeta_Annotations = Map.empty\<rparr>,
                            Pod_Phase = ''Running''\<rparr>\<rparr>]"
    using inst [THEN conjunct2, THEN conjunct1] by simp
  from one two show ?thesis by blast
qed

subsection \<open>Marker order\<close>

lemma insertionSort_sort_key:
  fixes f :: "'a \<Rightarrow> 'k::linorder"
  assumes lt: "\<And>x y. lt x y \<longleftrightarrow> f x < f y"
  shows "insertionSort lt xs = sort_key f xs"
proof (rule properties_for_sort_key [symmetric])
  show "mset (insertionSort lt xs) = mset xs"
    by (rule mset_insertionSort)
  show "sorted (map f (insertionSort lt xs))"
    by (rule sorted_insertionSort [OF lt])
  fix k
  show "filter (\<lambda>x. f k = f x) (insertionSort lt xs) = filter (\<lambda>x. f k = f x) xs"
    by (rule filter_insertionSort) (simp add: lt)
qed

lemma sorted_lexicographic:
  fixes g :: "'a \<Rightarrow> 'k::linorder" and f :: "'a \<Rightarrow> 'j::linorder"
  assumes "sorted (map g ys)" and "\<And>n. sorted (map f (filter (\<lambda>m. g m = n) ys))"
  shows "sorted (map (\<lambda>m. (g m, f m)) ys)"
  using assms
proof (induction ys)
  case Nil
  show ?case by simp
next
  case (Cons y ys)
  have tail: "sorted (map (\<lambda>m. (g m, f m)) ys)"
  proof (rule Cons.IH)
    show "sorted (map g ys)" using Cons.prems(1) by simp
    fix n
    show "sorted (map f (filter (\<lambda>m. g m = n) ys))"
      using Cons.prems(2) [of n] by (simp split: if_splits)
  qed
  have "(g y, f y) \<le> (g z, f z)" if z: "z \<in> set ys" for z
  proof (cases "g y = g z")
    case True
    have "sorted (map f (filter (\<lambda>m. g m = g y) (y # ys)))"
      by (rule Cons.prems(2))
    with True z have "f y \<le> f z" by auto
    with True show ?thesis by simp
  next
    case False
    moreover have "g y \<le> g z" using Cons.prems(1) z by simp
    ultimately have "g y < g z" by (simp add: order_less_le)
    then show ?thesis by simp
  qed
  with tail show ?case by simp
qed

text \<open>
  C4.  The two passes over the markers are each a stable sort, first by key and then by
  related node: the result is a permutation of the markers, sorted by related node and,
  among markers of the same node, by key; and the markers that share a key and a related
  node appear in the order in which they were emitted.
\<close>

theorem Describe_sortMarkers_stable:
  "mset (Describe_sortMarkers ms) = mset ms
   \<and> sort_Stable ByKey_Less ms = sort_key Marker_Key ms
   \<and> Describe_sortMarkers ms = sort_key Marker_Node (sort_key Marker_Key ms)
   \<and> sorted (map (\<lambda>m. (Marker_Node m, Marker_Key m)) (Describe_sortMarkers ms))
   \<and> filter (\<lambda>m. Marker_Key m = k \<and> Marker_Node m = n) (Describe_sortMarkers ms)
       = filter (\<lambda>m. Marker_Key m = k \<and> Marker_Node m = n) ms"
proof -
  have byKey: "sort_Stable ByKey_Less xs = sort_key Marker_Key xs" for xs
    unfolding sort_Stable_def by (rule insertionSort_sort_key) (simp add: ByKey_Less_def)
  have byNode: "sort_Stable ByNodeID_Less xs = sort_key Marker_Node xs" for xs
    unfolding sort_Stable_def by (rule insertionSort_sort_key) (simp add: ByNodeID_Less_def)
  have both: "Describe_sortMarkers ms = sort_key Marker_Node (sort_key Marker_Key ms)"
    by (simp add: Describe_sortMarkers_def byKey byNode)
  have perm: "mset (Describe_sortMarkers ms) = mset ms"
    by (simp add: both)
  have stable_node: "filter (\<lambda>m. Marker_Node m = n') (Describe_sortMarkers ms)
      = filter (\<lambda>m. Marker_Node m = n') (sort_key Marker_Key ms)" for n'
    unfolding both by (rule sort_key_stable)
  have "filter (\<lambda>m. Marker_Key m = k \<and> Marker_Node m = n) (Describe_sortMarkers ms)
      = filter (\<lambda>m. Marker_Key m = k) (filter (\<lambda>m. Marker_Node m = n) (Describe_sortMarkers ms))"
    by (simp add: conj_commute)
  also have "\<dots> = filter (\<lambda>m. Marker_Node m = n) (filter (\<lambda>m. Marker_Key m = k) (sort_key Marker_Key ms))"
    unfolding stable_node by (simp add: conj_commute)
  also have "\<dots> = filter (\<lambda>m. Marker_Node m = n) (filter (\<lambda>m. Marker_Key m = k) ms)"
    by (simp only: sort_key_stable)
  also have "\<dots> = filter (\<lambda>m. Marker_Key m = k \<and> Marker_Node m = n) ms"
    by (simp add: conj_commute)
  finally have ties: "filter (\<lambda>m. Marker_Key m = k \<and> Marker_Node m = n) (Describe_sortMarkers ms)
      = filter (\<lambda>m. Marker_Key m = k \<and> Marker_Node m = n) ms" .
  have "sorted (map Marker_Key (filter (\<lambda>m. Marker_Node m = n') (Describe_sortMarkers ms)))" for n'
    unfolding stable_node by (simp add: sorted_filter)
  moreover have "sorted (map Marker_Node (Describe_sortMarkers ms))"
    by (simp add: both)
  ultimately have lex: "sorted (map (\<lambda>m. (Marker_Node m, Marker_Key m)) (Describe_sortMarkers ms))"
    by (intro sorted_lexicographic)
  from perm byKey [of ms] both lex ties show ?thesis by blast
qed

theorem Describe_sortMarkers_stable_witness:
  "filter (\<lambda>m. Marker_Key m = ''DuelingRCs'' \<and> Marker_Node m = Some 7)
     (Describe_sortMarkers
       [\<lparr>Marker_Node = Some 7, Marker_Severity = WarningSeverity, Marker_Key = ''DuelingRCs'',
          Marker_Message = ''A'', Marker_Suggestion = []\<rparr>,
        \<lparr>Marker_Node = Some 3, Marker_Severity = ErrorSeverity, Marker_Key = ''CrashLoop'',
          Marker_Message = ''X'', Marker_Suggestion = []\<rparr>,
        \<lparr>Marker_Node = Some 7, Marker_Severity = WarningSeverity, Marker_Key = ''DuelingRCs'',
          Marker_Message = ''B'', Marker_Suggestion = []\<rparr>])
   = [\<lparr>Marker_Node = Some 7, Marker_Severity = WarningSeverity, Marker_Key = ''DuelingRCs'',
          Marker_Message = ''A'', Marker_Suggestion = []\<rparr>,
      \<lparr>Marker_Node = Some 7, Marker_Severity = WarningSeverity, Marker_Key = ''DuelingRCs'',
          Marker_Message = ''B'', Marker_Suggestion = []\<rparr>]"
  using Describe_sortMarkers_stable [where k = "''DuelingRCs''" and n = "Some 7" and ms =
       "[\<lparr>Marker_Node = Some 7, Marker_Severity = WarningSeverity, Marker_Key = ''DuelingRCs'',
          Marker_Message = ''A'', Marker_Suggestion = []\<rparr>,
        \<lparr>Marker_Node = Some 3, Marker_Severity = ErrorSeverity, Marker_Key = ''CrashLoop'',
          Marker_Message = ''X'', Marker_Suggestion = []\<rparr>,
        \<lparr>Marker_Node = Some 7, Marker_Severity = WarningSeverity, Marker_Key = ''DuelingRCs'',
          Marker_Message = ''B'', Marker_Suggestion = []\<rparr>]",
      THEN conjunct2, THEN conjunct2, THEN conjunct2, THEN conjunct2]
  by simp

subsection \<open>Service ports\<close>

lemma Itoa_examples:
  "Itoa 80 = ''80''" "Itoa 443 = ''443''" "Itoa 8080 = ''8080''" "Itoa 30080 = ''30080''"
  by (simp_all add: Itoa_def natDigits.simps digitChar_def)

text \<open>
  C8.  A service of type \<^verbatim>\<open>NodePort\<close> with two ports whose target ports equal the
  service ports is summarised by the target ports alone: neither the allocated node port
  30080 nor the placeholder for the unallocated one is shown.  Each of the two ports
  alone, in a single-port service, is shown with its node port or the placeholder.  The
  two examples of the claim evaluate as it says.
\<close>

theorem describeServicePorts_multi_port_hides_node_port:
  "describeServicePorts
     \<lparr>ServiceSpec_Ports =
        [\<lparr>ServicePort_Port = 80,
          ServicePort_TargetPort = \<lparr>IntOrString_Type = IntstrInt, IntVal = 80, StrVal = []\<rparr>,
          ServicePort_NodePort = 30080\<rparr>,
         \<lparr>ServicePort_Port = 443,
          ServicePort_TargetPort = \<lparr>IntOrString_Type = IntstrInt, IntVal = 443, StrVal = []\<rparr>,
          ServicePort_NodePort = 0\<rparr>],
      ServiceSpec_ClusterIP = ''172.30.0.10'', ServiceSpec_Type = ''NodePort''\<rparr>
     = '' ports 80, 443''
   \<and> describeServicePorts
     \<lparr>ServiceSpec_Ports =
        [\<lparr>ServicePort_Port = 80,
          ServicePort_TargetPort = \<lparr>IntOrString_Type = IntstrInt, IntVal = 80, StrVal = []\<rparr>,
          ServicePort_NodePort = 30080\<rparr>],
      ServiceSpec_ClusterIP = ''172.30.0.10'', ServiceSpec_Type = ''NodePort''\<rparr>
     = '':30080 -> 80''
   \<and> describeServicePorts
     \<lparr>ServiceSpec_Ports =
        [\<lparr>ServicePort_Port = 443,
          ServicePort_TargetPort = \<lparr>IntOrString_Type = IntstrInt, IntVal = 443, StrVal = []\<rparr>,
          ServicePort_NodePort = 0\<rparr>],
      ServiceSpec_ClusterIP = ''172.30.0.10'', ServiceSpec_Type = ''NodePort''\<rparr>
     = '':<initializing> -> 443''
   \<and> describeServicePorts
     \<lparr>ServiceSpec_Ports =
        [\<lparr>ServicePort_Port = 80,
          ServicePort_TargetPort = \<lparr>IntOrString_Type = IntstrInt, IntVal = 8080, StrVal = []\<rparr>,
          ServicePort_NodePort = 0\<rparr>],
      ServiceSpec_ClusterIP = ''172.30.0.10'', ServiceSpec_Type = ''ClusterIP''\<rparr>
     = '':80 -> 8080''
   \<and> describeServicePorts
     \<lparr>ServiceSpec_Ports = [], ServiceSpec_ClusterIP = ''172.30.0.10'',
      ServiceSpec_Type = ''ClusterIP''\<rparr>
     = '' no ports''"
  by (simp add: describeServicePorts_def portPair_def portOrNodePort_def IntOrString_String_def
      ServiceTypeNodePort_def ClusterIPNone_def Itoa_examples)

end
